theory Spec2Isabelle
  imports Main "HOL-Library.Sublist"
begin

chapter \<open>The tool-call loop of the blockchain analytics chatbot\<close>

text \<open>
  A model of \<open>blockchain_chatbot_mcp_v3.py\<close>: the prompt builder
  (\<open>_create_system_prompt\<close>), the tool-call extractor (\<open>_extract_tool_call\<close>), the turn
  orchestrator (\<open>get_llm_response\<close>, \<open>execute_mcp_tool\<close>, \<open>process_conversation_turn\<close>) and
  the chat loop (\<open>chat_loop\<close>).  The completion service and the tool server are
  parameters: functions from a request and a state of the world to an outcome and a new
  state of the world.  An exception is a value of type \<open>exn\<close>; a function that can raise
  returns a sum with the exception on the left.  Output to the console is left out.
\<close>

section \<open>Python strings\<close>

text \<open>
  Texts (user input, completions, tool output) are Python \<open>str\<close> values.  They are
  modelled as \<^typ>\<open>string\<close>: a list of characters, each a code point below 256.
  The operations below are the \<open>str\<close> methods the chatbot calls.
\<close>

text \<open>\<open>sub in s\<close>: some suffix of \<open>s\<close> starts with \<open>sub\<close>.\<close>

fun str_contains :: "string \<Rightarrow> string \<Rightarrow> bool" where
  "str_contains sub [] = (sub = [])"
| "str_contains sub (c # cs) = (prefix sub (c # cs) \<or> str_contains sub cs)"

text \<open>\<open>s.find(sub)\<close>: the lowest index at which \<open>sub\<close> starts, \<open>-1\<close> when there is none.\<close>

fun str_find :: "string \<Rightarrow> string \<Rightarrow> int" where
  "str_find sub [] = (if sub = [] then 0 else - 1)"
| "str_find sub (c # cs) =
     (if prefix sub (c # cs) then 0
      else (let r = str_find sub cs in if r = - 1 then - 1 else r + 1))"

text \<open>
  \<open>str.isspace\<close> on one character.  Below 256 the whitespace code points are
  TAB, LF, VT, FF, CR, the separators FS, GS, RS, US, the space, NEL and the no-break space.
\<close>

definition py_isspace :: "char \<Rightarrow> bool" where
  "py_isspace c =
     (let n = (of_char c :: nat)
      in (9 \<le> n \<and> n \<le> 13) \<or> (28 \<le> n \<and> n \<le> 32) \<or> n = 133 \<or> n = 160)"

text \<open>\<open>s.strip()\<close>: leading and trailing whitespace removed.\<close>

definition py_strip :: "string \<Rightarrow> string" where
  "py_strip s = rev (dropWhile py_isspace (rev (dropWhile py_isspace s)))"

text \<open>\<open>s.startswith(p)\<close>.\<close>

definition startswith :: "string \<Rightarrow> string \<Rightarrow> bool" where
  "startswith s p = prefix p s"

text \<open>\<open>sep.join(parts)\<close>.\<close>

fun str_join :: "string \<Rightarrow> string list \<Rightarrow> string" where
  "str_join sep [] = []"
| "str_join sep [p] = p"
| "str_join sep (p # q # ps) = p @ sep @ str_join sep (q # ps)"


section \<open>JSON values and the decoder \<open>json.loads\<close>\<close>

text \<open>
  A decoded JSON document.  Strings inside a document are lists of code points
  (\<^typ>\<open>nat\<close>), because a \<open>\uXXXX\<close> escape can denote a code point above 255.  An object
  is a Python \<open>dict\<close>: an association list with distinct keys in insertion order.
  Integers are Python's unbounded \<open>int\<close>; a number with a fraction or an exponent, and the
  constants \<open>NaN\<close>, \<open>Infinity\<close> and \<open>-Infinity\<close>, are floats and are kept as the text
  that denotes them.
\<close>

datatype json =
    JNull
  | JBool bool
  | JInt int
  | JFloat string
  | JString "nat list"
  | JArray "json list"
  | JObject "(nat list \<times> json) list"

text \<open>The code points of a text, to compare decoded strings with literals.\<close>

definition ustr :: "string \<Rightarrow> nat list" where
  "ustr s = map of_char s"

text \<open>\<open>d[k] = v\<close> on a dict: an existing key keeps its position and gets the new value.\<close>

fun dict_set :: "'k \<Rightarrow> 'v \<Rightarrow> ('k \<times> 'v) list \<Rightarrow> ('k \<times> 'v) list" where
  "dict_set k v [] = [(k, v)]"
| "dict_set k v ((k', v') # kvs) =
     (if k = k' then (k, v) # kvs else (k', v') # dict_set k v kvs)"

text \<open>
  The exceptions that the modelled code raises or catches.  In Python \<open>JSONDecodeError\<close>
  is a subclass of \<open>ValueError\<close>; here \<open>ValueError\<close> stands for a \<open>ValueError\<close> that is
  not a \<open>JSONDecodeError\<close>.
\<close>

datatype exn =
    JSONDecodeError
  | ValueError
  | RecursionError
  | KeyError string
  | TypeError
  | MCPToolError string
  | EOFError


text \<open>
  The two limits of the interpreter that the decoder can reach.  \<open>max_nesting\<close> is the
  number of containers (objects and arrays) that the decoder can have open at once:
  every container is read by a recursive call, and the call that would pass the
  recursion limit raises \<open>RecursionError\<close>; the number depends on the recursion limit
  and on the depth of the call stack where \<open>json.loads\<close> is called.  \<open>max_str_digits\<close> is
  \<open>sys.get_int_max_str_digits()\<close>: an integer literal with more digits raises
  \<open>ValueError\<close>; \<open>0\<close> switches the check off.
\<close>

record py_limits =
  max_nesting :: nat
  max_str_digits :: nat

subsection \<open>Tokens\<close>

datatype token =
    LBrace | RBrace | LBracket | RBracket | Colon | Comma
  | StrTok "nat list"
  | AtomTok string
  | BadTok

text \<open>JSON whitespace between tokens: space, TAB, LF, CR.\<close>

definition json_ws :: "char \<Rightarrow> bool" where
  "json_ws c = (c = CHR '' '' \<or> c = CHR 0x09 \<or> c = CHR 0x0A \<or> c = CHR 0x0D)"

definition punct :: "char \<Rightarrow> token option" where
  "punct c =
     (if c = CHR ''{'' then Some LBrace
      else if c = CHR ''}'' then Some RBrace
      else if c = CHR ''['' then Some LBracket
      else if c = CHR '']'' then Some RBracket
      else if c = CHR '':'' then Some Colon
      else if c = CHR '','' then Some Comma
      else None)"

definition hexval :: "char \<Rightarrow> nat option" where
  "hexval c =
     (let n = (of_char c :: nat)
      in if 48 \<le> n \<and> n \<le> 57 then Some (n - 48)
         else if 97 \<le> n \<and> n \<le> 102 then Some (n - 87)
         else if 65 \<le> n \<and> n \<le> 70 then Some (n - 55)
         else None)"

text \<open>The character after a backslash, other than \<open>u\<close>, and the code point it denotes.\<close>

definition escape_char :: "char \<Rightarrow> nat option" where
  "escape_char c =
     (if c = CHR 0x22 then Some 34
      else if c = CHR 0x5C then Some 92
      else if c = CHR ''/'' then Some 47
      else if c = CHR ''b'' then Some 8
      else if c = CHR ''f'' then Some 12
      else if c = CHR ''n'' then Some 10
      else if c = CHR ''r'' then Some 13
      else if c = CHR ''t'' then Some 9
      else None)"

text \<open>
  A high surrogate from a \<open>\uXXXX\<close> escape directly followed by a low one is one code
  point; a lone surrogate stays as it is.
\<close>

fun combine_surrogates :: "nat list \<Rightarrow> nat list" where
  "combine_surrogates (h # l # cs) =
     (if 0xD800 \<le> h \<and> h \<le> 0xDBFF \<and> 0xDC00 \<le> l \<and> l \<le> 0xDFFF
      then (0x10000 + (h - 0xD800) * 0x400 + (l - 0xDC00)) # combine_surrogates cs
      else h # combine_surrogates (l # cs))"
| "combine_surrogates cs = cs"

text \<open>
  The scanner reads one character at a time.  Between tokens it is in mode \<open>Top\<close>; inside
  a literal or number it collects the characters up to the next whitespace, quote or
  punctuation (\<open>Atom\<close>); inside a string it collects code points (\<open>Str\<close>), after a
  backslash it expects an escape (\<open>Esc\<close>), and after \<open>\u\<close> four hexadecimal digits
  (\<open>Uni\<close>, with the number of digits read and their value).  A control character inside a
  string, an unknown escape and an unterminated string end the tokens with \<open>BadTok\<close>.
  The decoder works from left to right and raises at the first fault it meets, so a fault
  of the text counts only when the parser gets as far as the token \<open>BadTok\<close>.
\<close>

datatype lexmode =
    Top
  | Atom string
  | Str "nat list"
  | Esc "nat list"
  | Uni "nat list" nat nat

fun tokenize :: "lexmode \<Rightarrow> string \<Rightarrow> token list" where
  "tokenize Top [] = []"
| "tokenize (Atom a) [] = [AtomTok a]"
| "tokenize (Str acc) [] = [BadTok]"
| "tokenize (Esc acc) [] = [BadTok]"
| "tokenize (Uni acc k v) [] = [BadTok]"
| "tokenize Top (c # cs) =
     (if json_ws c then tokenize Top cs
      else if c = CHR 0x22 then tokenize (Str []) cs
      else (case punct c of
              Some t \<Rightarrow> t # tokenize Top cs
            | None \<Rightarrow> tokenize (Atom [c]) cs))"
| "tokenize (Atom a) (c # cs) =
     (if json_ws c then AtomTok a # tokenize Top cs
      else if c = CHR 0x22 then AtomTok a # tokenize (Str []) cs
      else (case punct c of
              Some t \<Rightarrow> AtomTok a # t # tokenize Top cs
            | None \<Rightarrow> tokenize (Atom (a @ [c])) cs))"
| "tokenize (Str acc) (c # cs) =
     (if c = CHR 0x22 then StrTok (combine_surrogates acc) # tokenize Top cs
      else if c = CHR 0x5C then tokenize (Esc acc) cs
      else if (of_char c :: nat) < 32 then [BadTok]
      else tokenize (Str (acc @ [of_char c])) cs)"
| "tokenize (Esc acc) (c # cs) =
     (if c = CHR ''u'' then tokenize (Uni acc 0 0) cs
      else (case escape_char c of
              Some n \<Rightarrow> tokenize (Str (acc @ [n])) cs
            | None \<Rightarrow> [BadTok]))"
| "tokenize (Uni acc k v) (c # cs) =
     (case hexval c of
        None \<Rightarrow> [BadTok]
      | Some d \<Rightarrow>
          if k = 3 then tokenize (Str (acc @ [16 * v + d])) cs
          else tokenize (Uni acc (Suc k) (16 * v + d)) cs)"

subsection \<open>Literals and numbers\<close>

definition is_digit :: "char \<Rightarrow> bool" where
  "is_digit c = (let n = (of_char c :: nat) in 48 \<le> n \<and> n \<le> 57)"

definition digits_value :: "string \<Rightarrow> int" where
  "digits_value ds = foldl (\<lambda>a c. 10 * a + (int (of_char c) - 48)) 0 ds"

text \<open>
  The decoder matches a number against
  \<^verbatim>\<open>(-?(?:0|[1-9][0-9]*))(\.[0-9]+)?([eE][-+]?[0-9]+)?\<close>.  The three functions give
  the digits of the integer part and the lengths of the fraction and of the exponent that
  the pattern matches at the start of a text (\<open>0\<close> when the optional part does not match).
\<close>

definition int_digits :: "string \<Rightarrow> string" where
  "int_digits body =
     (case body of
        [] \<Rightarrow> []
      | d # r \<Rightarrow> if d = CHR ''0'' then [d] else takeWhile is_digit body)"

definition frac_length :: "string \<Rightarrow> nat" where
  "frac_length s =
     (case s of
        [] \<Rightarrow> 0
      | c # r \<Rightarrow>
          if c = CHR ''.'' \<and> takeWhile is_digit r \<noteq> []
          then Suc (length (takeWhile is_digit r)) else 0)"

definition exp_length :: "string \<Rightarrow> nat" where
  "exp_length s =
     (case s of
        [] \<Rightarrow> 0
      | c # r \<Rightarrow>
          if c = CHR ''e'' \<or> c = CHR ''E''
          then (let ds = (case r of
                            [] \<Rightarrow> []
                          | d # r' \<Rightarrow> if d = CHR ''+'' \<or> d = CHR ''-'' then r' else r)
                in if takeWhile is_digit ds = [] then 0
                   else Suc (length r - length ds + length (takeWhile is_digit ds)))
          else 0)"

text \<open>
  The value of a literal that starts like a number.  When no integer part matches, the
  text is no value.  A match without fraction and exponent is converted by \<open>int\<close>, which
  raises \<open>ValueError\<close> for more than \<open>max_str_digits\<close> digits (the check applies above 640
  digits only); this happens before the decoder looks at what follows the match.
  Characters of the literal that the match leaves over are a fault of the text.
\<close>

definition number_value :: "py_limits \<Rightarrow> string \<Rightarrow> exn + json" where
  "number_value lim a =
     (let body = (case a of [] \<Rightarrow> [] | c # r \<Rightarrow> if c = CHR ''-'' then r else a);
          ds = int_digits body;
          tl = drop (length ds) body;
          frac = frac_length tl;
          exp = exp_length (drop frac tl);
          rest = drop (frac + exp) tl
      in if ds = [] \<or> \<not> is_digit (hd ds) then Inl JSONDecodeError
         else if frac = 0 \<and> exp = 0
         then (if 640 < length ds \<and> 0 < max_str_digits lim \<and> max_str_digits lim < length ds
               then Inl ValueError
               else if rest = []
               then Inr (JInt (if body = a then digits_value ds else - digits_value ds))
               else Inl JSONDecodeError)
         else if rest = [] then Inr (JFloat a)
         else Inl JSONDecodeError)"

definition atom_value :: "py_limits \<Rightarrow> string \<Rightarrow> exn + json" where
  "atom_value lim a =
     (if a = ''null'' then Inr JNull
      else if a = ''true'' then Inr (JBool True)
      else if a = ''false'' then Inr (JBool False)
      else if a = ''NaN'' \<or> a = ''Infinity'' \<or> a = ''-Infinity'' then Inr (JFloat a)
      else number_value lim a)"

subsection \<open>The parser\<close>

text \<open>
  The parser runs over the tokens with a stack of the containers that are open: an array
  with the elements read so far, or an object with its pairs and the key whose value is
  being read.  \<open>expect\<close> says which tokens may come next.  A step gives the next state
  or the exception that the decoder raises at this token.
\<close>

datatype frame =
    ArrayFrame "json list"
  | ObjectFrame "(nat list \<times> json) list" "nat list option"

datatype expect =
    Value
  | ValueOrClose
  | KeyOrClose
  | Key
  | ColonNext
  | CommaOrClose
  | Finished json

text \<open>A value is complete: it is the document, an array element, or the value of the pending key.\<close>

fun close_value :: "json \<Rightarrow> frame list \<Rightarrow> exn + (expect \<times> frame list)" where
  "close_value v [] = Inr (Finished v, [])"
| "close_value v (ArrayFrame xs # st) = Inr (CommaOrClose, ArrayFrame (xs @ [v]) # st)"
| "close_value v (ObjectFrame kvs (Some k) # st) =
     Inr (CommaOrClose, ObjectFrame (dict_set k v kvs) None # st)"
| "close_value v (ObjectFrame kvs None # st) = Inl JSONDecodeError"

text \<open>
  A token at a place where a value must start.  A container is opened by a recursive
  call of the decoder, which fails when \<open>max_nesting\<close> containers are open already.
\<close>

fun begin_value :: "py_limits \<Rightarrow> token \<Rightarrow> frame list \<Rightarrow> exn + (expect \<times> frame list)" where
  "begin_value lim LBrace st =
     (if max_nesting lim \<le> length st then Inl RecursionError
      else Inr (KeyOrClose, ObjectFrame [] None # st))"
| "begin_value lim LBracket st =
     (if max_nesting lim \<le> length st then Inl RecursionError
      else Inr (ValueOrClose, ArrayFrame [] # st))"
| "begin_value lim (StrTok s) st = close_value (JString s) st"
| "begin_value lim (AtomTok a) st =
     (case atom_value lim a of Inl e \<Rightarrow> Inl e | Inr v \<Rightarrow> close_value v st)"
| "begin_value lim t st = Inl JSONDecodeError"

fun close_container :: "token \<Rightarrow> frame list \<Rightarrow> exn + (expect \<times> frame list)" where
  "close_container RBracket (ArrayFrame xs # st) = close_value (JArray xs) st"
| "close_container RBrace (ObjectFrame kvs None # st) = close_value (JObject kvs) st"
| "close_container t st = Inl JSONDecodeError"

fun read_key :: "token \<Rightarrow> frame list \<Rightarrow> exn + (expect \<times> frame list)" where
  "read_key (StrTok k) (ObjectFrame kvs None # st) =
     Inr (ColonNext, ObjectFrame kvs (Some k) # st)"
| "read_key t st = Inl JSONDecodeError"

fun parse_step ::
  "py_limits \<Rightarrow> expect \<Rightarrow> frame list \<Rightarrow> token \<Rightarrow> exn + (expect \<times> frame list)" where
  "parse_step lim Value st t = begin_value lim t st"
| "parse_step lim ValueOrClose st t =
     (if t = RBracket then close_container t st else begin_value lim t st)"
| "parse_step lim KeyOrClose st t =
     (if t = RBrace then close_container t st else read_key t st)"
| "parse_step lim Key st t = read_key t st"
| "parse_step lim ColonNext st t =
     (if t = Colon then Inr (Value, st) else Inl JSONDecodeError)"
| "parse_step lim CommaOrClose st t =
     (if t = Comma
      then (case st of
              [] \<Rightarrow> Inl JSONDecodeError
            | ArrayFrame xs # st' \<Rightarrow> Inr (Value, st)
            | ObjectFrame kvs k # st' \<Rightarrow> Inr (Key, st))
      else close_container t st)"
| "parse_step lim (Finished v) st t = Inl JSONDecodeError"

fun json_parse :: "py_limits \<Rightarrow> expect \<Rightarrow> frame list \<Rightarrow> token list \<Rightarrow> exn + json" where
  "json_parse lim e st [] = (case e of Finished v \<Rightarrow> Inr v | _ \<Rightarrow> Inl JSONDecodeError)"
| "json_parse lim e st (t # ts) =
     (case parse_step lim e st t of
        Inl x \<Rightarrow> Inl x
      | Inr (e', st') \<Rightarrow> json_parse lim e' st' ts)"

text \<open>
  \<open>json.loads(s)\<close>: the document that \<open>s\<close> denotes, or the exception that the decoder
  raises.  The decoder belongs to the Python standard library; this is the grammar it
  accepts (RFC 8259 with the three float constants, strict mode) within the two limits of
  the interpreter.  A text that is not a document raises \<open>JSONDecodeError\<close>, unless the
  decoder reaches a limit first.
\<close>

definition json_loads :: "py_limits \<Rightarrow> string \<Rightarrow> exn + json" where
  "json_loads lim s = json_parse lim Value [] (tokenize Top s)"


section \<open>The tool-call extractor\<close>

definition marker :: string where
  "marker = ''TOOL_CALL:''"

text \<open>
  The text after the first marker, stripped:
  \<^verbatim>\<open>tool_call_start = llm_response.find("TOOL_CALL:") + len("TOOL_CALL:")\<close>,
  \<^verbatim>\<open>tool_call_json = llm_response[tool_call_start:].strip()\<close>.
\<close>

definition tool_call_remainder :: "string \<Rightarrow> string" where
  "tool_call_remainder llm_response =
     (let tool_call_start = str_find marker llm_response + int (length marker)
      in py_strip (drop (nat tool_call_start) llm_response))"

text \<open>
  The loop over \<^verbatim>\<open>enumerate(tool_call_json)\<close>: the arguments are \<open>brace_count\<close>, the
  index \<open>i\<close> and the characters from \<open>i\<close> on; the result is \<open>end_index\<close>, which is still
  \<open>0\<close> when the loop ends without \<^verbatim>\<open>break\<close>.
\<close>

fun scan_braces :: "int \<Rightarrow> nat \<Rightarrow> string \<Rightarrow> nat" where
  "scan_braces brace_count i [] = 0"
| "scan_braces brace_count i (c # cs) =
     (if c = CHR ''{'' then scan_braces (brace_count + 1) (i + 1) cs
      else if c = CHR ''}'' then
        (if brace_count - 1 = 0 then i + 1
         else scan_braces (brace_count - 1) (i + 1) cs)
      else scan_braces brace_count (i + 1) cs)"

text \<open>\<^verbatim>\<open>tool_call_json[:end_index]\<close>: the text handed to \<open>json.loads\<close>.\<close>

definition balanced_slice :: "string \<Rightarrow> string" where
  "balanced_slice tool_call_json =
     (let end_index = scan_braces 0 0 tool_call_json
      in take end_index tool_call_json)"

text \<open>
  \<open>_extract_tool_call\<close>.  \<open>Inr None\<close> is the result \<open>None\<close>.  The handler is
  \<^verbatim>\<open>except (json.JSONDecodeError, IndexError)\<close>: a \<open>JSONDecodeError\<close> is caught,
  reported on the console and turned into \<open>None\<close>; \<open>IndexError\<close> is never raised by the
  body; any other exception of \<open>json.loads\<close> leaves the function.
\<close>

definition extract_tool_call :: "py_limits \<Rightarrow> string \<Rightarrow> exn + json option" where
  "extract_tool_call lim llm_response =
     (if \<not> str_contains marker llm_response then Inr None
      else (let tool_call_json = tool_call_remainder llm_response
            in if startswith tool_call_json ''{''
               then (case json_loads lim (balanced_slice tool_call_json) of
                       Inr v \<Rightarrow> Inr (Some v)
                     | Inl e \<Rightarrow> if e = JSONDecodeError then Inr None else Inl e)
               else Inr None))"

section \<open>The prompt builder\<close>

text \<open>A discovered tool: the dictionary that \<open>_discover_tools\<close> stores for it.\<close>

record tool_descriptor =
  name :: string
  description :: string
  input_schema :: json

text \<open>
  \<open>DatabaseSchema.get_schema_context\<close> returns a constant text of several lines.  It is
  given line by line; the lines are joined by line feeds.
\<close>

definition get_schema_context :: string where
  \<open>get_schema_context = str_join [CHR 0x0A]
    ['''',
     ''        ETHEREUM BLOCKCHAIN DATABASE SCHEMA (goteth_mainnet)'',
     ''        '',
     ''        You are analyzing Ethereum Proof-of-Stake consensus layer data. Key tables:'',
     ''        '',
     ''        1. t_validator_last_status (1.98M rows) - Current validator status'',
     ''           - f_val_idx: Validator index (unique identifier)'',
     ''           - f_epoch: Current epoch number'',
     ''           - f_balance_eth: Validator balance in ETH'',
     ''           - f_effective_balance: Effective balance for consensus (in wei)'',
     ''           - f_status: Status code (1=active, 0=inactive)'',
     ''           - f_slashed: Boolean indicating if validator was slashed'',
     ''           '',
     ''        2. t_block_metrics (11.96M rows) - Block production data'',
     ''           - f_slot: Slot number (12-second intervals)'',
     ''           - f_epoch: Epoch number (32 slots = 1 epoch)'',
     ''           - f_proposer_index: Validator who proposed the block'',
     ''           - f_proposed: Boolean indicating if block was actually proposed'',
     ''           - f_attestations: Number of attestations in block'',
     ''           '',
     ''        3. t_pool_summary (65.6M rows) - Staking pool performance'',
     ''           - f_pool_name: Name of staking pool'',
     ''           - f_epoch: Epoch number'',
     ''           - aggregated_rewards: Total rewards for pool in epoch'',
     ''           - aggregated_effective_balance: Total effective balance'',
     ''           '',
     ''        4. t_epoch_metrics_summary (375K rows) - Network-wide metrics'',
     ''           - f_epoch: Epoch number'',
     ''           - f_num_vals: Number of active validators'',
     ''           - f_total_balance_eth: Total ETH staked'',
     ''           - f_num_att: Number of attestations'',
     ''           '',
     ''        5. t_block_rewards (7.6M rows) - Economic data'',
     ''           - f_slot: Slot number'',
     ''           - f_reward_fees: Transaction fees earned'',
     ''           - f_burnt_fees: EIP-1559 burnt fees'',
     ''           - f_cl_manual_reward: Consensus layer rewards'',
     ''           '',
     ''        QUERY GUIDELINES:'',
     ''        - Always use LIMIT clauses (max 100 rows for display)'',
     ''        - Use aggregate functions (COUNT, SUM, AVG) for large datasets'',
     ''        - Field names are prefixed with f_ (e.g., f_val_idx, f_epoch)'',
     ''        - Epochs are ~6.4 minutes, slots are 12 seconds'',
     ''        - Current epoch is around 375000+'',
     ''        - Balance fields may be in wei (divide by 1e18 for ETH) or ETH'',
     ''        '']\<close>

text \<open>
  The list comprehension of \<open>_create_system_prompt\<close>: one line \<open>- name: description\<close>
  per tool, joined by line feeds.
\<close>

definition tools_description :: "tool_descriptor list \<Rightarrow> string" where
  "tools_description tools =
     str_join [CHR 0x0A] (map (\<lambda>tool. ''- '' @ name tool @ '': '' @ description tool) tools)"

text \<open>
  \<open>_create_system_prompt\<close>: the template, line by line, with the schema context and the
  tool lines put in their places.
\<close>

definition create_system_prompt :: "tool_descriptor list \<Rightarrow> string" where
  \<open>create_system_prompt tools = str_join [CHR 0x0A]
    [''You are a blockchain analytics assistant with access to Ethereum consensus layer data.'',
     '''',
     get_schema_context,
     '''',
     ''AVAILABLE MCP TOOLS:'',
     tools_description tools,
     '''',
     ''        INSTRUCTIONS:'',
     ''1. When users ask questions about blockchain data, analyze what information you need'',
     ''2. Use the appropriate MCP tools to query the database'',
     ''3. For SQL queries, generate ClickHouse-compatible SQL with proper LIMIT clauses'',
     ''4. Always explain your findings in clear, user-friendly language'',
     ''5. If you need to make multiple queries, do them step by step'',
     '''',
     ''TOOL USAGE FORMAT:'',
     ''When you need to use a tool, respond with:'',
     ''TOOL_CALL: {'',
     ''    "tool_name": "tool_name_here",'',
     ''    "arguments": {"arg1": "value1", "arg2": "value2"}'',
     ''}'',
     '''',
     ''IMPORTANT TOOL SIGNATURES:'',
     ''- list_databases(): No parameters needed'',
     ''- list_tables(database): Requires database name (e.g., "goteth_mainnet")'',
     ''- run_select_query(query): Only requires SQL query string, database connection is already established'',
     '''',
     ''After receiving tool results, provide a comprehensive answer based on the data.'',
     '''']\<close>


section \<open>The transcript, the two backends and the state of a session\<close>

datatype role = System | User | Assistant

text \<open>One entry of the transcript: the dictionary with the keys \<open>role\<close> and \<open>content\<close>.\<close>

record message =
  role :: role
  content :: string

text \<open>
  What the completion backend does when it is asked: it answers with a text, or the
  request raises an exception (given by its message, \<open>str(e)\<close>).
\<close>

datatype completion = Completion string | CompletionRaises string

text \<open>
  An item of a tool result's content, as \<open>execute_mcp_tool\<close> tells items apart: one with
  a \<open>text\<close> attribute, one with a \<open>data\<close> attribute but no \<open>text\<close>, or any other item
  (given by \<open>str(item)\<close>).
\<close>

datatype content_item = WithText string | WithData string | OtherItem string

text \<open>
  The result object of \<open>session.call_tool\<close>: the error flag, the content list, and the
  text that \<open>str(result.content)\<close> gives.
\<close>

record call_tool_result =
  isError :: bool
  result_content :: "content_item list"
  content_str :: string

datatype tool_outcome = ToolReturns call_tool_result | ToolRaises string

text \<open>
  The requests sent to the backends and the entries appended to the transcript, in the
  order in which they happen.  The trace is not a variable of the program; it records
  what the program does so that calls can be counted.
\<close>

datatype event =
    LLMCall "message list"
  | ToolCall json json
  | HistoryExtend "message list"

text \<open>
  The state that a turn reads and changes: the list \<open>conversation_history\<close> (changed in
  place by \<open>extend\<close>), the state of the world outside the program (the completion
  service and the tool server), and the trace.
\<close>

record 'w chat_state =
  conversation_history :: "message list"
  backend :: 'w
  trace :: "event list"

text \<open>
  The chatbot object: the tools found at start-up, the limits of the interpreter that
  runs it, and the two collaborators.  A call to a collaborator depends on the request
  and on the state of the world and may change that state.  \<open>completions_create\<close> is \<open>groq_client.chat.completions.create\<close> followed by
  \<open>response.choices[0].message.content\<close>; \<open>call_tool\<close> is \<open>session.call_tool\<close>.
\<close>

record 'w chatbot =
  available_tools :: "tool_descriptor list"
  limits :: py_limits
  completions_create :: "message list \<Rightarrow> 'w \<Rightarrow> completion \<times> 'w"
  call_tool :: "json \<Rightarrow> json \<Rightarrow> 'w \<Rightarrow> tool_outcome \<times> 'w"

definition llm_calls :: "event list \<Rightarrow> nat" where
  "llm_calls tr = length (filter (\<lambda>e. case e of LLMCall ms \<Rightarrow> True | _ \<Rightarrow> False) tr)"

definition tool_calls :: "event list \<Rightarrow> nat" where
  "tool_calls tr = length (filter (\<lambda>e. case e of ToolCall n a \<Rightarrow> True | _ \<Rightarrow> False) tr)"

text \<open>Every entry ever appended to the transcript, oldest first.\<close>

fun appended :: "event list \<Rightarrow> message list" where
  "appended [] = []"
| "appended (HistoryExtend ms # tr) = ms @ appended tr"
| "appended (e # tr) = appended tr"

text \<open>\<open>conversation_history.extend(entries)\<close>.\<close>

definition history_extend :: "message list \<Rightarrow> 'w chat_state \<Rightarrow> 'w chat_state" where
  "history_extend entries s =
     s\<lparr>conversation_history := conversation_history s @ entries,
       trace := trace s @ [HistoryExtend entries]\<rparr>"


section \<open>The turn orchestrator\<close>

text \<open>
  \<open>execute_mcp_tool\<close>.  The whole body is inside \<open>try\<close>, and \<open>except Exception\<close> turns
  every exception, also the \<open>MCPToolError\<close> raised for \<open>isError\<close>, into an
  \<open>MCPToolError\<close> whose message starts with \<open>MCP tool execution failed: \<close>.
\<close>

definition tool_result_text :: "call_tool_result \<Rightarrow> string" where
  "tool_result_text result =
     (case result_content result of
        [] \<Rightarrow> ''Tool executed successfully but returned no content''
      | content_item # rest \<Rightarrow>
          (case content_item of
             WithText text \<Rightarrow> text
           | WithData data \<Rightarrow> data
           | OtherItem shown \<Rightarrow> shown))"

definition execute_mcp_tool ::
  "'w chatbot \<Rightarrow> json \<Rightarrow> json \<Rightarrow> 'w chat_state \<Rightarrow> (exn + string) \<times> 'w chat_state" where
  "execute_mcp_tool self tool_name arguments s =
     (case call_tool self tool_name arguments (backend s) of
        (outcome, w) \<Rightarrow>
          (let s' = s\<lparr>backend := w, trace := trace s @ [ToolCall tool_name arguments]\<rparr>
           in case outcome of
                ToolRaises e \<Rightarrow>
                  (Inl (MCPToolError (''MCP tool execution failed: '' @ e)), s')
              | ToolReturns result \<Rightarrow>
                  if isError result
                  then (Inl (MCPToolError (''MCP tool execution failed: ''
                              @ ''Tool execution failed: '' @ content_str result)), s')
                  else (Inr (tool_result_text result), s')))"

text \<open>
  \<open>get_llm_response\<close>: the system prompt, the transcript and the current message are
  sent; an exception becomes the returned text.
\<close>

definition get_llm_response ::
  "'w chatbot \<Rightarrow> string \<Rightarrow> 'w chat_state \<Rightarrow> string \<times> 'w chat_state" where
  "get_llm_response self user_message s =
     (let messages =
            [\<lparr>role = System, content = create_system_prompt (available_tools self)\<rparr>]
              @ conversation_history s
              @ [\<lparr>role = User, content = user_message\<rparr>]
      in case completions_create self messages (backend s) of
           (outcome, w) \<Rightarrow>
             (let s' = s\<lparr>backend := w, trace := trace s @ [LLMCall messages]\<rparr>
              in case outcome of
                   Completion text \<Rightarrow> (text, s')
                 | CompletionRaises e \<Rightarrow> (''Error getting LLM response: '' @ e, s')))"

text \<open>
  \<open>tool_call[key]\<close>: the value stored under the key; \<open>KeyError\<close> when a dict does not
  have the key, \<open>TypeError\<close> when the value subscripted is not a dict.
\<close>

fun subscript :: "json \<Rightarrow> string \<Rightarrow> exn + json" where
  "subscript (JObject kvs) key =
     (case map_of kvs (ustr key) of
        None \<Rightarrow> Inl (KeyError key)
      | Some v \<Rightarrow> Inr v)"
| "subscript v key = Inl TypeError"

definition tool_error_answer :: "string \<Rightarrow> string" where
  "tool_error_answer e = ''I encountered an error while querying the database: '' @ e"

definition follow_up_message :: string where
  "follow_up_message = ''Please provide a comprehensive answer based on the tool results above.''"

definition exhausted_answer :: string where
  "exhausted_answer = ''I'm having trouble completing this request after multiple attempts.''"

text \<open>
  The \<open>for\<close> loop of \<open>process_conversation_turn\<close>; the first argument is the number of
  iterations that remain.  The result is the returned text, or the exception that leaves
  the function: the extractor is called outside the \<open>try\<close> block, and inside it only
  \<open>MCPToolError\<close> is caught.
\<close>

fun turn_loop ::
  "'w chatbot \<Rightarrow> nat \<Rightarrow> string \<Rightarrow> 'w chat_state \<Rightarrow> (exn + string) \<times> 'w chat_state" where
  "turn_loop self 0 current_message s = (Inr exhausted_answer, s)"
| "turn_loop self (Suc n) current_message s =
     (case get_llm_response self current_message s of
        (llm_response, s1) \<Rightarrow>
          (case extract_tool_call (limits self) llm_response of
             Inl e \<Rightarrow> (Inl e, s1)
           | Inr None \<Rightarrow> (Inr llm_response, s1)
           | Inr (Some tool_call) \<Rightarrow>
               (case subscript tool_call ''tool_name'' of
                  Inl e \<Rightarrow> (Inl e, s1)
                | Inr tool_name \<Rightarrow>
                    (case subscript tool_call ''arguments'' of
                       Inl e \<Rightarrow> (Inl e, s1)
                     | Inr arguments \<Rightarrow>
                         (case execute_mcp_tool self tool_name arguments s1 of
                            (Inr tool_result, s2) \<Rightarrow>
                              turn_loop self n follow_up_message
                                (history_extend
                                   [\<lparr>role = Assistant, content = llm_response\<rparr>,
                                    \<lparr>role = User, content = ''Tool result: '' @ tool_result\<rparr>]
                                   s2)
                          | (Inl (MCPToolError e), s2) \<Rightarrow> (Inr (tool_error_answer e), s2)
                          | (Inl e, s2) \<Rightarrow> (Inl e, s2))))))"

definition max_iterations :: nat where
  "max_iterations = 3"

definition process_conversation_turn ::
  "'w chatbot \<Rightarrow> string \<Rightarrow> 'w chat_state \<Rightarrow> (exn + string) \<times> 'w chat_state" where
  "process_conversation_turn self user_message s = turn_loop self max_iterations user_message s"


section \<open>The chat loop\<close>

text \<open>
  \<open>str.lower\<close> on one character below 256: the letters A to Z and the accented capitals
  \<open>0xC0\<close> to \<open>0xDE\<close> (but not the multiplication sign \<open>0xD7\<close>) move up by 32, which
  sets the bit of value 32, clear in all of them.
\<close>

definition py_lower_char :: "char \<Rightarrow> char" where
  "py_lower_char c =
     (let n = (of_char c :: nat)
      in if (65 \<le> n \<and> n \<le> 90) \<or> (192 \<le> n \<and> n \<le> 222 \<and> n \<noteq> 215)
         then (case c of Char b0 b1 b2 b3 b4 b5 b6 b7 \<Rightarrow> Char b0 b1 b2 b3 b4 True b6 b7)
         else c)"

definition py_lower :: "string \<Rightarrow> string" where
  "py_lower s = map py_lower_char s"

text \<open>
  The part of the loop body after the checks of the input: the turn is processed, the
  input and the answer are appended, and a history of more than 20 entries is cut to
  \<^verbatim>\<open>conversation_history[-20:]\<close>.  An exception leaves the loop.
\<close>

definition chat_turn :: "'w chatbot \<Rightarrow> string \<Rightarrow> 'w chat_state \<Rightarrow> exn + 'w chat_state" where
  "chat_turn self user_input s =
     (case process_conversation_turn self user_input s of
        (Inl e, s1) \<Rightarrow> Inl e
      | (Inr response, s1) \<Rightarrow>
          (let s2 = history_extend
                      [\<lparr>role = User, content = user_input\<rparr>,
                       \<lparr>role = Assistant, content = response\<rparr>] s1
           in if length (conversation_history s2) > 20
              then Inr (s2\<lparr>conversation_history :=
                             drop (length (conversation_history s2) - 20) (conversation_history s2)\<rparr>)
              else Inr s2))"

text \<open>
  \<open>chat_loop\<close> once the session is set up.  The lines typed by the user are a list;
  \<open>input()\<close> takes the next one and raises \<open>EOFError\<close> when there is none.  The result is
  the state when the loop is left by \<open>break\<close>, or the exception that leaves it.
\<close>

fun chat_loop_body :: "'w chatbot \<Rightarrow> string list \<Rightarrow> 'w chat_state \<Rightarrow> exn + 'w chat_state" where
  "chat_loop_body self [] s = Inl EOFError"
| "chat_loop_body self (line # lines) s =
     (let user_input = py_strip line
      in if py_lower user_input \<in> set [''quit'', ''exit'', ''bye''] then Inr s
         else if user_input = [] then chat_loop_body self lines s
         else (case chat_turn self user_input s of
                 Inl e \<Rightarrow> Inl e
               | Inr s' \<Rightarrow> chat_loop_body self lines s'))"

definition chat_loop :: "'w chatbot \<Rightarrow> string list \<Rightarrow> 'w \<Rightarrow> exn + 'w chat_state" where
  "chat_loop self lines w =
     chat_loop_body self lines \<lparr>conversation_history = [], backend = w, trace = []\<rparr>"


section \<open>Notions used to state the properties\<close>

text \<open>
  The value of a brace counter after each character of a text: it starts at \<open>d\<close>, goes up
  at every \<open>{\<close> and down at every \<open>}\<close>.
\<close>

fun depths :: "int \<Rightarrow> string \<Rightarrow> int list" where
  "depths d [] = []"
| "depths d (c # cs) =
     (let d' = (if c = CHR ''{'' then d + 1 else if c = CHR ''}'' then d - 1 else d)
      in d' # depths d' cs)"

text \<open>Unbalanced braces: the counter is never zero after a character.\<close>

definition depth_never_zero :: "string \<Rightarrow> bool" where
  "depth_never_zero s = (0 \<notin> set (depths 0 s))"

text \<open>The counter is zero after the last character of the text and not before.\<close>

definition depth_zero_first_at_end :: "string \<Rightarrow> bool" where
  "depth_zero_first_at_end s =
     (s \<noteq> [] \<and> last (depths 0 s) = 0 \<and> 0 \<notin> set (butlast (depths 0 s)))"

text \<open>
  The rounds of a turn that ran to the end, counted in the events of one call of
  \<open>process_conversation_turn\<close>: each successful tool call is followed by one \<open>extend\<close>.
\<close>

definition tool_rounds :: "event list \<Rightarrow> nat" where
  "tool_rounds tr = length (filter (\<lambda>e. case e of HistoryExtend ms \<Rightarrow> True | _ \<Rightarrow> False) tr)"

text \<open>
  A list of transcript entries made of tool exchanges only: an assistant message that
  holds a tool call, then the user message \<open>Tool result: ...\<close>, and so on.
\<close>

fun tool_exchange :: "py_limits \<Rightarrow> message list \<Rightarrow> bool" where
  "tool_exchange lim [] = True"
| "tool_exchange lim [m] = False"
| "tool_exchange lim (a # u # rest) =
     (role a = Assistant
      \<and> (case extract_tool_call lim (content a) of Inr (Some tool_call) \<Rightarrow> True | _ \<Rightarrow> False)
      \<and> role u = User \<and> prefix ''Tool result: '' (content u)
      \<and> tool_exchange lim rest)"

text \<open>The request that \<open>get_llm_response\<close> sends in a given state.\<close>

definition llm_messages :: "'w chatbot \<Rightarrow> string \<Rightarrow> 'w chat_state \<Rightarrow> message list" where
  "llm_messages self user_message s =
     [\<lparr>role = System, content = create_system_prompt (available_tools self)\<rparr>]
       @ conversation_history s
       @ [\<lparr>role = User, content = user_message\<rparr>]"

text \<open>
  A response contains a valid tool call: the extractor finds an object, and the object
  has the keys \<open>tool_name\<close> and \<open>arguments\<close>.
\<close>

definition valid_tool_call :: "py_limits \<Rightarrow> string \<Rightarrow> bool" where
  "valid_tool_call lim response =
     (case extract_tool_call lim response of
        Inr (Some tool_call) \<Rightarrow>
          \<not> isl (subscript tool_call ''tool_name'') \<and> \<not> isl (subscript tool_call ''arguments'')
      | _ \<Rightarrow> False)"

text \<open>The last \<open>k\<close> elements of a list, in their order; the whole list when it is shorter.\<close>

definition most_recent :: "nat \<Rightarrow> 'a list \<Rightarrow> 'a list" where
  "most_recent k xs = drop (length xs - k) xs"


section \<open>Example sessions\<close>

text \<open>
  Backends with a fixed behaviour, on which the properties are evaluated.  The first
  ones have no state of their own (the world is \<open>()\<close>); in the last two the world counts
  the tool calls made so far.  The interpreter has the limits that CPython starts with:
  a recursion limit of 1000, which the containers that the decoder has open cannot
  exceed, and 4300 digits for an integer literal.
\<close>

definition default_limits :: py_limits where
  "default_limits = \<lparr>max_nesting = 1000, max_str_digits = 4300\<rparr>"

definition question :: string where
  "question = ''How many databases are available?''"

definition list_databases_call :: string where
  \<open>list_databases_call = ''TOOL_CALL: {"tool_name": "list_databases", "arguments": {}}''\<close>

definition list_databases_json :: json where
  "list_databases_json =
     JObject [(ustr ''tool_name'', JString (ustr ''list_databases'')), (ustr ''arguments'', JObject [])]"

definition default_result :: call_tool_result where
  "default_result =
     \<lparr>isError = False, result_content = [WithText ''default''], content_str = ''[default]''\<rparr>"

definition error_result :: call_tool_result where
  "error_result =
     \<lparr>isError = True, result_content = [WithText ''Unknown table''],
      content_str = ''[Unknown table]''\<rparr>"

text \<open>Every response asks for the same tool, and the tool always succeeds.\<close>

definition looping_bot :: "unit chatbot" where
  "looping_bot =
     \<lparr>available_tools = [],
      limits = default_limits,
      completions_create = (\<lambda>ms w. (Completion list_databases_call, w)),
      call_tool = (\<lambda>nm args w. (ToolReturns default_result, w))\<rparr>"

text \<open>The response holds a JSON object without keys.\<close>

definition keyless_bot :: "unit chatbot" where
  "keyless_bot =
     \<lparr>available_tools = [],
      limits = default_limits,
      completions_create = (\<lambda>ms w. (Completion ''TOOL_CALL: {}'', w)),
      call_tool = (\<lambda>nm args w. (ToolReturns default_result, w))\<rparr>"

text \<open>The response names a tool and gives no arguments.\<close>

definition no_arguments_bot :: "unit chatbot" where
  \<open>no_arguments_bot =
     \<lparr>available_tools = [],
      limits = default_limits,
      completions_create =
        (\<lambda>ms w. (Completion ''TOOL_CALL: {"tool_name": "list_databases"}'', w)),
      call_tool = (\<lambda>nm args w. (ToolReturns default_result, w))\<rparr>\<close>

text \<open>The tool backend reports \<open>isError\<close> on every call.\<close>

definition failing_tool_bot :: "unit chatbot" where
  "failing_tool_bot =
     \<lparr>available_tools = [],
      limits = default_limits,
      completions_create = (\<lambda>ms w. (Completion list_databases_call, w)),
      call_tool = (\<lambda>nm args w. (ToolReturns error_result, w))\<rparr>"

text \<open>The model asks for a tool once and answers when it has the result.\<close>

definition one_query_bot :: "nat chatbot" where
  "one_query_bot =
     \<lparr>available_tools = [],
      limits = default_limits,
      completions_create =
        (\<lambda>ms w. (if w = 0 then Completion list_databases_call
                  else Completion ''There is one database: default.'', w)),
      call_tool = (\<lambda>nm args w. (ToolReturns default_result, Suc w))\<rparr>"

text \<open>The first tool call succeeds and every later one reports an error.\<close>

definition flaky_bot :: "nat chatbot" where
  "flaky_bot =
     \<lparr>available_tools = [],
      limits = default_limits,
      completions_create = (\<lambda>ms w. (Completion list_databases_call, w)),
      call_tool =
        (\<lambda>nm args w. (ToolReturns (if w = 0 then default_result else error_result), Suc w))\<rparr>"

text \<open>The state in which a session starts.\<close>

definition start :: "'w \<Rightarrow> 'w chat_state" where
  "start w = \<lparr>conversation_history = [], backend = w, trace = []\<rparr>"

text \<open>The state of a turn on \<open>flaky_bot\<close> after its first iteration.\<close>

definition after_first_round :: "nat chat_state" where
  "after_first_round =
     \<lparr>conversation_history =
        [\<lparr>role = Assistant, content = list_databases_call\<rparr>,
         \<lparr>role = User, content = ''Tool result: default''\<rparr>],
      backend = Suc 0,
      trace =
        [LLMCall [\<lparr>role = System, content = create_system_prompt []\<rparr>,
                  \<lparr>role = User, content = question\<rparr>],
         ToolCall (JString (ustr ''list_databases'')) (JObject []),
         HistoryExtend
           [\<lparr>role = Assistant, content = list_databases_call\<rparr>,
            \<lparr>role = User, content = ''Tool result: default''\<rparr>]]\<rparr>"


section \<open>Evaluation\<close>

text \<open>The definitions that \<open>simp\<close> unfolds to run the extractor and a turn on a given input.\<close>

lemmas eval_defs = marker_def tool_call_remainder_def py_strip_def py_isspace_def startswith_def
  balanced_slice_def extract_tool_call_def json_loads_def json_ws_def punct_def ustr_def
  atom_value_def number_value_def int_digits_def frac_length_def exp_length_def is_digit_def
  digits_value_def escape_char_def hexval_def
  depth_never_zero_def depth_zero_first_at_end_def Let_def

lemmas run_defs = process_conversation_turn_def max_iterations_def get_llm_response_def
  execute_mcp_tool_def history_extend_def tool_result_text_def tool_error_answer_def
  chat_turn_def chat_loop_def start_def valid_tool_call_def Let_def
  default_result_def error_result_def


section \<open>The extractor: the brace scan\<close>

lemma json_loads_empty: "json_loads lim [] = Inl JSONDecodeError"
  by (simp add: json_loads_def)

lemma scan_braces_no_zero:
  "0 \<notin> set (depths d s) \<Longrightarrow> scan_braces d i s = 0"
  by (induction s arbitrary: d i) (auto simp: Let_def)

lemma length_depths [simp]: "length (depths d s) = length s"
  by (induction s arbitrary: d) (auto simp: Let_def)

lemma depths_eq_Nil [simp]: "depths d s = [] \<longleftrightarrow> s = []"
  by (cases s) (auto simp: Let_def)

lemma scan_braces_first_zero:
  "0 < d \<Longrightarrow> s \<noteq> [] \<Longrightarrow> last (depths d s) = 0 \<Longrightarrow> 0 \<notin> set (butlast (depths d s))
    \<Longrightarrow> scan_braces d i (s @ t) = i + length s"
proof (induction s arbitrary: d i)
  case Nil
  then show ?case by simp
next
  case (Cons c cs)
  show ?case
  proof (cases "cs = []")
    case True
    with Cons.prems show ?thesis by (auto simp: Let_def split: if_splits)
  next
    case False
    with Cons.prems Cons.IH show ?thesis
      by (auto simp: Let_def split: if_splits)
  qed
qed

lemma scan_braces_object:
  assumes "startswith obj ''{''" and "depth_zero_first_at_end obj"
  shows "scan_braces 0 0 (obj @ t) = length obj"
proof -
  from assms(1) obtain rest where obj: "obj = CHR ''{'' # rest"
    by (cases obj) (auto simp: startswith_def)
  from assms(2) have rest: "rest \<noteq> []" "last (depths 1 rest) = 0" "0 \<notin> set (butlast (depths 1 rest))"
    by (auto simp: depth_zero_first_at_end_def obj Let_def split: if_splits)
  from scan_braces_first_zero [of 1 rest 1 t] rest
  show ?thesis by (simp add: obj)
qed

lemma str_find_ge: "- 1 \<le> str_find sub s"
  by (induction s) (auto simp: Let_def)

lemma str_contains_find: "str_contains sub s \<longleftrightarrow> str_find sub s \<noteq> - 1"
proof (induction s)
  case Nil
  then show ?case by simp
next
  case (Cons c cs)
  from str_find_ge [of sub cs] have "str_find sub cs + 1 \<noteq> - 1" by arith
  with Cons show ?case by (auto simp: Let_def)
qed

lemma strip_framed:
  assumes ws: "\<forall>c\<in>set ws. py_isspace c"
    and obj: "obj \<noteq> []" "\<not> py_isspace (hd obj)" "\<not> py_isspace (last obj)"
  shows "\<exists>t. py_strip (ws @ obj @ trailing) = obj @ t"
proof -
  have front: "dropWhile py_isspace (ws @ obj @ trailing) = obj @ trailing"
    using ws obj by (cases obj) (auto simp: dropWhile_append)
  have "dropWhile py_isspace (rev trailing @ rev obj)
          = (if \<forall>c\<in>set (rev trailing). py_isspace c then rev obj
             else dropWhile py_isspace (rev trailing) @ rev obj)"
    using obj by (cases "rev obj") (auto simp: dropWhile_append last_rev hd_rev)
  then have "rev (dropWhile py_isspace (rev (obj @ trailing)))
          = obj @ (if \<forall>c\<in>set (rev trailing). py_isspace c then []
                   else rev (dropWhile py_isspace (rev trailing)))"
    by simp
  with front show ?thesis by (simp add: py_strip_def)
qed


lemma last_char_closing:
  "0 < d \<Longrightarrow> s \<noteq> [] \<Longrightarrow> last (depths d s) = 0 \<Longrightarrow> 0 \<notin> set (butlast (depths d s))
    \<Longrightarrow> last s = CHR ''}''"
proof (induction s arbitrary: d)
  case Nil
  then show ?case by simp
next
  case (Cons c cs)
  show ?case
  proof (cases "cs = []")
    case True
    with Cons.prems show ?thesis by (auto simp: Let_def split: if_splits)
  next
    case False
    define d' where "d' = (if c = CHR ''{'' then d + 1 else if c = CHR ''}'' then d - 1 else d)"
    have dep: "depths d (c # cs) = d' # depths d' cs"
      by (simp add: d'_def Let_def)
    with Cons.prems False
    have rest: "d' \<noteq> 0" "0 \<notin> set (butlast (depths d' cs))" "last (depths d' cs) = 0"
      by auto
    moreover from Cons.prems(1) have "0 \<le> d'"
      by (simp add: d'_def)
    ultimately have "last cs = CHR ''}''"
      using Cons.IH [of d'] False by simp
    with False show ?thesis by simp
  qed
qed

lemma object_ends:
  assumes "startswith obj ''{''" and "depth_zero_first_at_end obj"
  shows "obj \<noteq> []" and "hd obj = CHR ''{''" and "last obj = CHR ''}''"
proof -
  from assms(1) obtain rest where obj: "obj = CHR ''{'' # rest"
    by (cases obj) (auto simp: startswith_def)
  from assms(2) have rest: "rest \<noteq> []" "last (depths 1 rest) = 0" "0 \<notin> set (butlast (depths 1 rest))"
    by (auto simp: depth_zero_first_at_end_def obj Let_def split: if_splits)
  show "obj \<noteq> []" and "hd obj = CHR ''{''" by (simp_all add: obj)
  from last_char_closing [of 1 rest] rest show "last obj = CHR ''}''" by (simp add: obj)
qed

lemma remainder_after_marker:
  assumes "str_find marker (pre @ marker @ rest) = int (length pre)"
  shows "tool_call_remainder (pre @ marker @ rest) = py_strip rest"
  using assms by (simp add: tool_call_remainder_def nat_add_distrib)


section \<open>The extractor: the limits of the decoder\<close>

lemma tokenize_brackets:
  "tokenize Top (replicate n CHR ''['' @ rest) = replicate n LBracket @ tokenize Top rest"
  by (induction n) (simp_all add: json_ws_def punct_def)

lemma tokenize_ones:
  "tokenize (Atom a) (replicate n CHR ''1'' @ rest) = tokenize (Atom (a @ replicate n CHR ''1'')) rest"
  by (induction n arbitrary: a) (simp_all add: json_ws_def punct_def replicate_app_Cons_same)

lemma json_parse_brackets:
  assumes "e = Value \<or> e = ValueOrClose"
    and "max_nesting lim \<le> length st + n"
  shows "json_parse lim e st (replicate (Suc n) LBracket @ ts) = Inl RecursionError"
  using assms
proof (induction n arbitrary: e st)
  case 0
  then show ?case by auto
next
  case (Suc n)
  show ?case
  proof (cases "max_nesting lim \<le> length st")
    case True
    with Suc.prems(1) show ?thesis by auto
  next
    case False
    from Suc.prems(2) have "max_nesting lim \<le> length (ArrayFrame [] # st) + n"
      by simp
    from Suc.IH [OF disjI2 [OF refl] this] False Suc.prems(1)
    show ?thesis by auto
  qed
qed

lemma depths_replicate:
  "c \<noteq> CHR ''{'' \<Longrightarrow> c \<noteq> CHR ''}'' \<Longrightarrow> depths d (replicate n c @ rest) = replicate n d @ depths d rest"
  by (induction n) (simp_all add: Let_def)

lemma number_value_ones:
  assumes "640 < n" and "0 < max_str_digits lim" and "max_str_digits lim < n"
  shows "number_value lim (replicate n CHR ''1'') = Inl ValueError"
proof -
  from assms(1) obtain m where n: "n = Suc m"
    by (cases n) simp_all
  have digits: "takeWhile is_digit (replicate n CHR ''1'') = replicate n CHR ''1''"
    by (simp add: is_digit_def)
  have "int_digits (replicate n CHR ''1'') = replicate n CHR ''1''"
    using digits by (simp add: int_digits_def n)
  with assms show ?thesis
    by (simp add: number_value_def n frac_length_def exp_length_def is_digit_def)
qed

text \<open>
  When the text after the marker starts with an object at whose last character, and not
  before, the brace counter is back at zero, the extractor hands exactly this object to
  the decoder, whatever stands before the marker and behind the object.
\<close>

lemma extract_tool_call_counter_balanced:
  assumes first: "str_find marker (pre @ marker @ ws @ obj @ trailing) = int (length pre)"
    and ws: "\<forall>c\<in>set ws. py_isspace c"
    and brace: "startswith obj ''{''"
    and balanced: "depth_zero_first_at_end obj"
  shows "extract_tool_call lim (pre @ marker @ ws @ obj @ trailing) =
           (case json_loads lim obj of
              Inr v \<Rightarrow> Inr (Some v)
            | Inl e \<Rightarrow> if e = JSONDecodeError then Inr None else Inl e)"
proof -
  let ?text = "pre @ marker @ ws @ obj @ trailing"
  from first have present: "str_contains marker ?text"
    by (simp add: str_contains_find)
  note ends = object_ends [OF brace balanced]
  have "\<not> py_isspace (hd obj)" "\<not> py_isspace (last obj)"
    by (simp_all add: ends py_isspace_def)
  with strip_framed [OF ws ends(1)] obtain t where "py_strip (ws @ obj @ trailing) = obj @ t"
    by blast
  with remainder_after_marker [OF first] have rem: "tool_call_remainder ?text = obj @ t"
    by simp
  have start: "startswith (obj @ t) ''{''"
    using brace by (cases obj) (auto simp: startswith_def)
  have slice: "balanced_slice (obj @ t) = obj"
    by (simp add: balanced_slice_def scan_braces_object [OF brace balanced])
  show ?thesis
    unfolding extract_tool_call_def using present rem start slice by simp
qed

text \<open>
  An object that is valid JSON and whose braces the counter balances is returned parsed.
\<close>

lemma extract_tool_call_balanced_object:
  assumes "str_find marker (pre @ marker @ ws @ obj @ trailing) = int (length pre)"
    and "\<forall>c\<in>set ws. py_isspace c"
    and "startswith obj ''{''"
    and "depth_zero_first_at_end obj"
    and "json_loads lim obj = Inr v"
  shows "extract_tool_call lim (pre @ marker @ ws @ obj @ trailing) = Inr (Some v)"
  using extract_tool_call_counter_balanced [OF assms(1-4), of lim] assms(5) by simp

text \<open>
  An object whose value is an integer with more digits than the interpreter converts is
  valid JSON with balanced braces, but \<open>json.loads\<close> raises \<open>ValueError\<close>, which the
  handler of \<open>_extract_tool_call\<close> does not catch.
\<close>

lemma extract_tool_call_long_integer:
  assumes "0 < max_nesting lim"
    and "640 < n" and "0 < max_str_digits lim" and "max_str_digits lim < n"
  shows \<open>extract_tool_call lim (''TOOL_CALL: {"a": '' @ replicate n CHR ''1'' @ ''}'') = Inl ValueError\<close>
proof -
  let ?obj = \<open>''{"a": '' @ replicate n CHR ''1'' @ ''}''\<close>
  from assms(2) obtain m where n: "n = Suc m"
    by (cases n) simp_all
  have first: "str_find marker ([] @ marker @ '' '' @ ?obj @ []) = int (length ([] :: string))"
    by (simp add: marker_def)
  have ws: "\<forall>c\<in>set '' ''. py_isspace c"
    by (simp add: py_isspace_def)
  have brace: "startswith ?obj ''{''"
    by (simp add: startswith_def)
  have balanced: "depth_zero_first_at_end ?obj"
    by (simp add: depth_zero_first_at_end_def depths_replicate butlast_append)
  have "tokenize Top ?obj = [LBrace, StrTok (ustr ''a''), Colon, AtomTok (replicate n CHR ''1''), RBrace]"
    using tokenize_ones [of "''1''" m "''}''"]
    by (simp add: n json_ws_def punct_def ustr_def replicate_app_Cons_same)
  moreover have "atom_value lim (replicate n CHR ''1'') = Inl ValueError"
    using number_value_ones [OF assms(2-4)] by (simp add: atom_value_def n)
  ultimately have "json_loads lim ?obj = Inl ValueError"
    using assms(1) by (simp add: json_loads_def)
  with extract_tool_call_counter_balanced [OF first ws brace balanced, of lim]
  show ?thesis by (simp add: marker_def)
qed


section \<open>Claims about the extractor\<close>

text \<open>
  Claim C2 does not hold of the code.  The comment above the loop says
  \<^verbatim>\<open># Find the matching closing brace\<close>, but the loop counts every brace, also one
  inside a JSON string.  After the marker stands the valid object \<open>{"a": "}{"}\<close>; the
  counter is back at zero at the first \<open>}\<close>, which is inside the string and is not the
  brace that closes the object; the slice \<open>{"a": "}\<close> does not parse, and the extractor
  returns \<open>None\<close>.  This holds in every interpreter whose decoder can open one container.
\<close>

theorem brace_in_string_ends_scan:
  assumes "0 < max_nesting lim"
  shows \<open>json_loads lim ''{"a": "}{"}'' = Inr (JObject [(ustr ''a'', JString (ustr ''}{''))])
    \<and> balanced_slice (tool_call_remainder ''TOOL_CALL: {"a": "}{"}'') = ''{"a": "}''
    \<and> extract_tool_call lim ''TOOL_CALL: {"a": "}{"}'' = Inr None\<close>
  using assms by (simp add: eval_defs)

theorem brace_in_string_ends_scan_witness:
  \<open>json_loads default_limits ''{"a": "}{"}'' = Inr (JObject [(ustr ''a'', JString (ustr ''}{''))])
    \<and> extract_tool_call default_limits ''TOOL_CALL: {"a": "}{"}'' = Inr None\<close>
  using brace_in_string_ends_scan [of default_limits] by (simp add: default_limits_def)

text \<open>
  Claim C7, as stated, fails.  When the counter never returns to zero the loop ends
  without \<open>break\<close>, \<open>end_index\<close> still has its initial value \<open>0\<close>, and the slice handed
  to the parser is empty, not the remainder.
\<close>

theorem unbalanced_slice_counterexample:
  \<open>str_contains marker ''TOOL_CALL: {"a": {"b": 1}''
    \<and> tool_call_remainder ''TOOL_CALL: {"a": {"b": 1}'' = ''{"a": {"b": 1}''
    \<and> depth_never_zero ''{"a": {"b": 1}''
    \<and> balanced_slice ''{"a": {"b": 1}'' = []\<close>
  by (simp add: eval_defs)

text \<open>
  Claim C7, amended.  For every text in which the marker is present, the remainder starts
  with \<open>{\<close> and the brace counter never returns to zero, the slice that
  \<open>_extract_tool_call\<close> hands to the JSON parser is the empty text.
\<close>

theorem unbalanced_slice_is_empty:
  assumes "str_contains marker text"
    and "startswith (tool_call_remainder text) ''{''"
    and "depth_never_zero (tool_call_remainder text)"
  shows "balanced_slice (tool_call_remainder text) = []"
  using assms(3) by (simp add: balanced_slice_def depth_never_zero_def scan_braces_no_zero)

theorem unbalanced_slice_is_empty_witness:
  \<open>str_contains marker ''TOOL_CALL: {"tool_name": "x", "arguments": {}''
    \<and> startswith (tool_call_remainder ''TOOL_CALL: {"tool_name": "x", "arguments": {}'') ''{''
    \<and> depth_never_zero (tool_call_remainder ''TOOL_CALL: {"tool_name": "x", "arguments": {}'')
    \<and> balanced_slice (tool_call_remainder ''TOOL_CALL: {"tool_name": "x", "arguments": {}'') = []\<close>
proof -
  let ?t = \<open>''TOOL_CALL: {"tool_name": "x", "arguments": {}''\<close>
  have h1: "str_contains marker ?t"
    by (simp add: marker_def)
  have h2: "startswith (tool_call_remainder ?t) ''{''"
    by (simp add: eval_defs)
  have h3: "depth_never_zero (tool_call_remainder ?t)"
    by (simp add: eval_defs)
  from unbalanced_slice_is_empty [OF h1 h2 h3] h1 h2 h3 show ?thesis by simp
qed

text \<open>
  What does hold of claim C8: the extractor returns \<open>None\<close> when the braces of the
  remainder are unbalanced (the slice is empty, and the decoder rejects the empty text in
  every interpreter), and when the decoder rejects every prefix of the remainder with
  \<open>JSONDecodeError\<close>.  The example of the specification, with the final brace missing,
  is of the first kind.
\<close>

lemma extract_tool_call_rejected:
  assumes "str_contains marker text"
    and "depth_never_zero (tool_call_remainder text)
         \<or> (\<forall>p. prefix p (tool_call_remainder text) \<longrightarrow> json_loads lim p = Inl JSONDecodeError)"
  shows "extract_tool_call lim text = Inr None"
proof -
  let ?r = "tool_call_remainder text"
  have "json_loads lim (balanced_slice ?r) = Inl JSONDecodeError"
    using assms(2)
  proof
    assume "depth_never_zero ?r"
    then have "balanced_slice ?r = []"
      by (simp add: balanced_slice_def depth_never_zero_def scan_braces_no_zero)
    then show ?thesis by (simp add: json_loads_empty)
  next
    assume "\<forall>p. prefix p ?r \<longrightarrow> json_loads lim p = Inl JSONDecodeError"
    moreover have "prefix (balanced_slice ?r) ?r"
      by (simp add: balanced_slice_def take_is_prefix)
    ultimately show ?thesis by blast
  qed
  then show ?thesis
    by (simp add: extract_tool_call_def Let_def)
qed

lemma extract_missing_final_brace:
  \<open>extract_tool_call lim ''TOOL_CALL: {"tool_name": "x", "arguments": {}'' = Inr None\<close>
proof -
  let ?t = \<open>''TOOL_CALL: {"tool_name": "x", "arguments": {}''\<close>
  have "str_contains marker ?t"
    by (simp add: marker_def)
  moreover have "depth_never_zero (tool_call_remainder ?t)"
    by (simp add: eval_defs)
  ultimately show ?thesis
    by (simp add: extract_tool_call_rejected)
qed

text \<open>
  Claim C8 does not hold of the code.  The handler is
  \<^verbatim>\<open>except (json.JSONDecodeError, IndexError)\<close>, and the decoder also raises
  \<open>RecursionError\<close>.  After the marker stands \<open>{"a": \<close>, then \<open>n\<close> opening brackets, then
  \<open>}\<close>: the braces are balanced and the text is not valid JSON, since no bracket is
  closed.  When \<open>n\<close> is not below the number of containers that the decoder can have
  open, the decoder reaches the limit before it reaches the fault of the text, and
  \<open>RecursionError\<close> leaves \<open>_extract_tool_call\<close>.
\<close>

theorem deep_nesting_raises:
  assumes "max_nesting lim \<le> n"
  shows \<open>extract_tool_call lim (''TOOL_CALL: {"a": '' @ replicate n CHR ''['' @ ''}'') = Inl RecursionError\<close>
proof -
  let ?obj = \<open>''{"a": '' @ replicate n CHR ''['' @ ''}''\<close>
  have first: "str_find marker ([] @ marker @ '' '' @ ?obj @ []) = int (length ([] :: string))"
    by (simp add: marker_def)
  have ws: "\<forall>c\<in>set '' ''. py_isspace c"
    by (simp add: py_isspace_def)
  have brace: "startswith ?obj ''{''"
    by (simp add: startswith_def)
  have balanced: "depth_zero_first_at_end ?obj"
    by (simp add: depth_zero_first_at_end_def depths_replicate butlast_append)
  have tokens: "tokenize Top ?obj
      = LBrace # StrTok (ustr ''a'') # Colon # replicate n LBracket @ [RBrace]"
    using tokenize_brackets [of n "''}''"]
    by (simp add: json_ws_def punct_def ustr_def)
  have "json_parse lim Value [] (LBrace # StrTok (ustr ''a'') # Colon # replicate n LBracket @ [RBrace])
          = Inl RecursionError"
  proof (cases "max_nesting lim = 0")
    case True
    then show ?thesis by simp
  next
    case False
    with assms obtain m where n: "n = Suc m"
      by (cases n) simp_all
    from assms have "max_nesting lim \<le> length [ObjectFrame [] (Some (ustr ''a''))] + m"
      by (simp add: n)
    from json_parse_brackets [OF disjI1 [OF refl] this, of "[RBrace]"] False
    show ?thesis unfolding n by simp
  qed
  then have "json_loads lim ?obj = Inl RecursionError"
    unfolding json_loads_def tokens .
  with extract_tool_call_counter_balanced [OF first ws brace balanced, of lim]
  show ?thesis by (simp add: marker_def)
qed

text \<open>
  The theorem in an interpreter with the limits that CPython starts with, at 1000
  brackets.
\<close>

theorem deep_nesting_raises_witness:
  \<open>extract_tool_call default_limits (''TOOL_CALL: {"a": '' @ replicate 1000 CHR ''['' @ ''}'')
     = Inl RecursionError\<close>
  using deep_nesting_raises [of default_limits 1000] by (simp add: default_limits_def)


section \<open>Traces of a turn\<close>

lemma llm_calls_simps [simp]:
  "llm_calls [] = 0"
  "llm_calls (LLMCall ms # tr) = Suc (llm_calls tr)"
  "llm_calls (ToolCall n a # tr) = llm_calls tr"
  "llm_calls (HistoryExtend es # tr) = llm_calls tr"
  "llm_calls (tr @ tr') = llm_calls tr + llm_calls tr'"
  by (simp_all add: llm_calls_def)

lemma tool_calls_simps [simp]:
  "tool_calls [] = 0"
  "tool_calls (LLMCall ms # tr) = tool_calls tr"
  "tool_calls (ToolCall n a # tr) = Suc (tool_calls tr)"
  "tool_calls (HistoryExtend es # tr) = tool_calls tr"
  "tool_calls (tr @ tr') = tool_calls tr + tool_calls tr'"
  by (simp_all add: tool_calls_def)

lemma tool_rounds_simps [simp]:
  "tool_rounds [] = 0"
  "tool_rounds (LLMCall ms # tr) = tool_rounds tr"
  "tool_rounds (ToolCall n a # tr) = tool_rounds tr"
  "tool_rounds (HistoryExtend es # tr) = Suc (tool_rounds tr)"
  "tool_rounds (tr @ tr') = tool_rounds tr + tool_rounds tr'"
  by (simp_all add: tool_rounds_def)

lemma appended_append [simp]: "appended (tr @ tr') = appended tr @ appended tr'"
  by (induction tr rule: appended.induct) simp_all

lemma get_llm_response_state:
  assumes "get_llm_response self user_message s = (llm_response, s1)"
  shows "conversation_history s1 = conversation_history s"
    and "trace s1 = trace s @ [LLMCall (llm_messages self user_message s)]"
  using assms
  by (auto simp: get_llm_response_def llm_messages_def Let_def split: prod.splits completion.splits)

lemma execute_mcp_tool_state:
  assumes "execute_mcp_tool self tool_name arguments s1 = (r, s2)"
  shows "conversation_history s2 = conversation_history s1"
    and "trace s2 = trace s1 @ [ToolCall tool_name arguments]"
  using assms
  by (auto simp: execute_mcp_tool_def Let_def split: prod.splits tool_outcome.splits if_splits)

lemma execute_mcp_tool_raises:
  assumes "execute_mcp_tool self tool_name arguments s1 = (Inl e, s2)"
  shows "\<exists>m. e = MCPToolError m"
  using assms
  by (auto simp: execute_mcp_tool_def Let_def split: prod.splits tool_outcome.splits if_splits)

lemma history_extend_state [simp]:
  "conversation_history (history_extend es s) = conversation_history s @ es"
  "trace (history_extend es s) = trace s @ [HistoryExtend es]"
  "backend (history_extend es s) = backend s"
  by (simp_all add: history_extend_def)

text \<open>One iteration of the loop, by the way it ends.\<close>

lemma turn_loop_no_call:
  assumes "get_llm_response self current_message s = (llm_response, s1)"
    and "extract_tool_call (limits self) llm_response = Inr None"
  shows "turn_loop self (Suc n) current_message s = (Inr llm_response, s1)"
  using assms by simp

lemma turn_loop_tool_failure:
  assumes "get_llm_response self current_message s = (llm_response, s1)"
    and "extract_tool_call (limits self) llm_response = Inr (Some tool_call)"
    and "subscript tool_call ''tool_name'' = Inr tool_name"
    and "subscript tool_call ''arguments'' = Inr arguments"
    and "execute_mcp_tool self tool_name arguments s1 = (Inl (MCPToolError e), s2)"
  shows "turn_loop self (Suc n) current_message s = (Inr (tool_error_answer e), s2)"
  using assms by simp

lemma turn_loop_tool_success:
  assumes "get_llm_response self current_message s = (llm_response, s1)"
    and "extract_tool_call (limits self) llm_response = Inr (Some tool_call)"
    and "subscript tool_call ''tool_name'' = Inr tool_name"
    and "subscript tool_call ''arguments'' = Inr arguments"
    and "execute_mcp_tool self tool_name arguments s1 = (Inr tool_result, s2)"
  shows "turn_loop self (Suc n) current_message s =
           turn_loop self n follow_up_message
             (history_extend
                [\<lparr>role = Assistant, content = llm_response\<rparr>,
                 \<lparr>role = User, content = ''Tool result: '' @ tool_result\<rparr>] s2)"
  using assms by simp

lemma turn_loop_trace:
  "turn_loop self n current_message s = (r, s') \<Longrightarrow>
     \<exists>new. trace s' = trace s @ new
       \<and> llm_calls new \<le> n \<and> tool_calls new \<le> n \<and> tool_rounds new \<le> n
       \<and> (tool_rounds new = n \<longrightarrow> r = Inr exhausted_answer \<and> llm_calls new = n \<and> tool_calls new = n)
       \<and> conversation_history s' = conversation_history s @ appended new
       \<and> tool_exchange (limits self) (appended new) \<and> length (appended new) = 2 * tool_rounds new"
proof (induction n arbitrary: current_message s)
  case 0
  then show ?case by simp
next
  case (Suc n)
  obtain llm_response s1 where llm: "get_llm_response self current_message s = (llm_response, s1)"
    by (cases "get_llm_response self current_message s")
  note s1 = get_llm_response_state [OF llm]
  show ?case
  proof (cases "extract_tool_call (limits self) llm_response")
    case (Inl e)
    with Suc.prems llm have "s' = s1" by simp
    with s1 show ?thesis by simp
  next
    case (Inr found)
    show ?thesis
    proof (cases found)
    case None
    with Suc.prems llm Inr have "r = Inr llm_response" "s' = s1" by simp_all
    with s1 show ?thesis by simp
  next
    case (Some tool_call)
    note Some = Inr [unfolded Some]
    show ?thesis
    proof (cases "subscript tool_call ''tool_name''")
      case (Inl e)
      with Suc.prems llm Some have "s' = s1" by simp
      with s1 show ?thesis by simp
    next
      case name: (Inr tool_name)
      show ?thesis
      proof (cases "subscript tool_call ''arguments''")
        case (Inl e)
        with Suc.prems llm Some name have "s' = s1" by simp
        with s1 show ?thesis by simp
      next
        case args: (Inr arguments)
        obtain res s2 where exec: "execute_mcp_tool self tool_name arguments s1 = (res, s2)"
          by (cases "execute_mcp_tool self tool_name arguments s1")
        note s2 = execute_mcp_tool_state [OF exec]
        show ?thesis
        proof (cases res)
          case (Inl e)
          with Suc.prems llm Some name args exec have "s' = s2"
            by (cases e) simp_all
          with s1 s2 show ?thesis by simp
        next
          case (Inr tool_result)
          let ?entries = "[\<lparr>role = Assistant, content = llm_response\<rparr>,
                           \<lparr>role = User, content = ''Tool result: '' @ tool_result\<rparr>]"
          let ?s3 = "history_extend ?entries s2"
          from Suc.prems llm Some name args exec Inr
          have "turn_loop self n follow_up_message ?s3 = (r, s')" by simp
          from Suc.IH [OF this] obtain new where new:
            "trace s' = trace ?s3 @ new" "llm_calls new \<le> n" "tool_calls new \<le> n"
            "tool_rounds new \<le> n"
            "tool_rounds new = n \<longrightarrow> r = Inr exhausted_answer \<and> llm_calls new = n \<and> tool_calls new = n"
            "conversation_history s' = conversation_history ?s3 @ appended new"
            "tool_exchange (limits self) (appended new)" "length (appended new) = 2 * tool_rounds new"
            by blast
          let ?new = "[LLMCall (llm_messages self current_message s),
                       ToolCall tool_name arguments, HistoryExtend ?entries] @ new"
          have "trace s' = trace s @ ?new"
            using new(1) s1 s2 by simp
          moreover have "conversation_history s' = conversation_history s @ appended ?new"
            using new(6) s1 s2 by simp
          moreover have "tool_exchange (limits self) (appended ?new)" "length (appended ?new) = 2 * tool_rounds ?new"
            using new(7,8) Some by simp_all
          moreover have "llm_calls ?new \<le> Suc n" "tool_calls ?new \<le> Suc n" "tool_rounds ?new \<le> Suc n"
            using new(2,3,4) by simp_all
          moreover have "tool_rounds ?new = Suc n \<longrightarrow>
              r = Inr exhausted_answer \<and> llm_calls ?new = Suc n \<and> tool_calls ?new = Suc n"
            using new(5) by simp
          ultimately show ?thesis by blast
        qed
      qed
    qed
  qed
  qed
qed

lemma numeral_3_Suc: "(3::nat) = Suc (Suc (Suc 0))" by simp

lemma extract_list_databases_call [simp]:
  "1 < max_nesting lim \<Longrightarrow> extract_tool_call lim list_databases_call = Inr (Some list_databases_json)"
  by (simp add: list_databases_call_def list_databases_json_def eval_defs)

lemma default_nesting [simp]: "max_nesting default_limits = 1000"
  by (simp add: default_limits_def)

lemma subscript_list_databases_json [simp]:
  "subscript list_databases_json ''tool_name'' = Inr (JString (ustr ''list_databases''))"
  "subscript list_databases_json ''arguments'' = Inr (JObject [])"
  by (simp_all add: list_databases_json_def ustr_def)

lemma extract_final_answer [simp]:
  "extract_tool_call lim ''There is one database: default.'' = Inr None"
  by (simp add: extract_tool_call_def marker_def)

lemma valid_tool_callE:
  assumes "valid_tool_call lim text"
  obtains tool_call tool_name arguments where
    "extract_tool_call lim text = Inr (Some tool_call)"
    "subscript tool_call ''tool_name'' = Inr tool_name"
    "subscript tool_call ''arguments'' = Inr arguments"
proof -
  from assms obtain tool_call where tc: "extract_tool_call lim text = Inr (Some tool_call)"
    and ok: "\<not> isl (subscript tool_call ''tool_name'')" "\<not> isl (subscript tool_call ''arguments'')"
    by (auto simp: valid_tool_call_def split: sum.splits option.splits)
  from ok obtain tool_name arguments where
    "subscript tool_call ''tool_name'' = Inr tool_name"
    "subscript tool_call ''arguments'' = Inr arguments"
    by (cases "subscript tool_call ''tool_name''"; cases "subscript tool_call ''arguments''") auto
  with tc that show thesis by blast
qed

lemma get_llm_response_completion:
  assumes "completions_create self (llm_messages self user_message s) (backend s) = (Completion text, w)"
  shows "\<exists>s1. get_llm_response self user_message s = (text, s1)"
  using assms by (simp add: get_llm_response_def llm_messages_def Let_def)

lemma execute_mcp_tool_error_result:
  assumes "call_tool self tool_name arguments (backend s1) = (ToolReturns res, w)" and "isError res"
  shows "\<exists>s2. execute_mcp_tool self tool_name arguments s1 =
           (Inl (MCPToolError (''MCP tool execution failed: Tool execution failed: '' @ content_str res)), s2)"
  using assms by (simp add: execute_mcp_tool_def Let_def)

lemma execute_mcp_tool_success:
  assumes "call_tool self tool_name arguments (backend s1) = (ToolReturns res, w)" and "\<not> isError res"
  shows "\<exists>s2. execute_mcp_tool self tool_name arguments s1 = (Inr (tool_result_text res), s2)"
  using assms by (simp add: execute_mcp_tool_def Let_def)

lemma turn_loop_all_rounds:
  assumes llm: "\<forall>ms w. \<exists>text w'. completions_create self ms w = (Completion text, w') \<and> valid_tool_call (limits self) text"
    and tool: "\<forall>nm args w. \<exists>res w'. call_tool self nm args w = (ToolReturns res, w') \<and> \<not> isError res"
  shows "turn_loop self n current_message s = (r, s') \<Longrightarrow>
           \<exists>new. trace s' = trace s @ new \<and> tool_rounds new = n"
proof (induction n arbitrary: current_message s)
  case 0
  then show ?case by simp
next
  case (Suc n)
  from llm obtain reply w where
    "completions_create self (llm_messages self current_message s) (backend s) = (Completion reply, w)"
    and valid: "valid_tool_call (limits self) reply"
    by blast
  from get_llm_response_completion [OF this(1)]
  obtain s1 where resp: "get_llm_response self current_message s = (reply, s1)" ..
  from valid obtain tool_call tool_name arguments where call:
    "extract_tool_call (limits self) reply = Inr (Some tool_call)"
    "subscript tool_call ''tool_name'' = Inr tool_name"
    "subscript tool_call ''arguments'' = Inr arguments"
    by (rule valid_tool_callE)
  from tool obtain res w' where
    "call_tool self tool_name arguments (backend s1) = (ToolReturns res, w')" "\<not> isError res"
    by blast
  from execute_mcp_tool_success [OF this]
  obtain s2 where exec: "execute_mcp_tool self tool_name arguments s1 = (Inr (tool_result_text res), s2)" ..
  let ?entries = "[\<lparr>role = Assistant, content = reply\<rparr>,
                   \<lparr>role = User, content = ''Tool result: '' @ tool_result_text res\<rparr>]"
  from Suc.prems turn_loop_tool_success [OF resp call exec]
  have "turn_loop self n follow_up_message (history_extend ?entries s2) = (r, s')"
    by simp
  from Suc.IH [OF this] obtain new where
    "trace s' = trace (history_extend ?entries s2) @ new" "tool_rounds new = n"
    by blast
  with get_llm_response_state(2) [OF resp] execute_mcp_tool_state(2) [OF exec]
  have "trace s' = trace s @ ([LLMCall (llm_messages self current_message s),
            ToolCall tool_name arguments, HistoryExtend ?entries] @ new)"
    and "tool_rounds ([LLMCall (llm_messages self current_message s),
            ToolCall tool_name arguments, HistoryExtend ?entries] @ new) = Suc n"
    by simp_all
  then show ?case by blast
qed

lemma extract_empty_object:
  "0 < max_nesting lim \<Longrightarrow> extract_tool_call lim ''TOOL_CALL: {}'' = Inr (Some (JObject []))"
  by (simp add: eval_defs)

lemma extract_no_arguments:
  \<open>0 < max_nesting lim \<Longrightarrow>
   extract_tool_call lim ''TOOL_CALL: {"tool_name": "list_databases"}''
     = Inr (Some (JObject [(ustr ''tool_name'', JString (ustr ''list_databases''))]))\<close>
  by (simp add: eval_defs)


section \<open>Claims about the turn orchestrator\<close>

text \<open>
  Claim C3.  In every call of \<open>process_conversation_turn\<close>, whatever the two backends do,
  at most 3 requests go to the completion backend and at most 3 to the tool backend.
  When all three iterations end with a successful tool call (the ceiling is reached
  without a terminal state), the function returns the fixed answer
  \<open>I'm having trouble completing this request after multiple attempts.\<close> after exactly 3
  completion requests and 3 tool calls; this is what happens when every response
  contains a valid tool call and every tool call succeeds.
\<close>

theorem process_conversation_turn_call_bound:
  assumes "process_conversation_turn self user_message s = (r, s')"
  shows "\<exists>new. trace s' = trace s @ new
           \<and> llm_calls new \<le> 3 \<and> tool_calls new \<le> 3
           \<and> (tool_rounds new = 3 \<longrightarrow>
                 r = Inr exhausted_answer \<and> llm_calls new = 3 \<and> tool_calls new = 3)
           \<and> ((\<forall>ms w. \<exists>text w'. completions_create self ms w = (Completion text, w')
                                   \<and> valid_tool_call (limits self) text)
                \<and> (\<forall>nm args w. \<exists>res w'. call_tool self nm args w = (ToolReturns res, w')
                                   \<and> \<not> isError res)
                \<longrightarrow> tool_rounds new = 3)"
proof -
  from assms have run: "turn_loop self 3 user_message s = (r, s')"
    by (simp add: process_conversation_turn_def max_iterations_def)
  from turn_loop_trace [OF run] obtain new where new:
    "trace s' = trace s @ new" "llm_calls new \<le> 3" "tool_calls new \<le> 3"
    "tool_rounds new = 3 \<longrightarrow> r = Inr exhausted_answer \<and> llm_calls new = 3 \<and> tool_calls new = 3"
    by blast
  have "tool_rounds new = 3"
    if "\<forall>ms w. \<exists>text w'. completions_create self ms w = (Completion text, w') \<and> valid_tool_call (limits self) text"
      and "\<forall>nm args w. \<exists>res w'. call_tool self nm args w = (ToolReturns res, w') \<and> \<not> isError res"
  proof -
    from turn_loop_all_rounds [OF that run] obtain new' where
      "trace s' = trace s @ new'" "tool_rounds new' = 3"
      by blast
    with new(1) show ?thesis by simp
  qed
  with new show ?thesis by blast
qed

text \<open>
  The theorem on a session in which every response asks for a tool and the tool always
  succeeds.
\<close>

theorem process_conversation_turn_call_bound_witness:
  "\<exists>s'. process_conversation_turn looping_bot question (start ()) = (Inr exhausted_answer, s')
         \<and> llm_calls (trace s') = 3 \<and> tool_calls (trace s') = 3"
proof -
  obtain r s' where run: "process_conversation_turn looping_bot question (start ()) = (r, s')"
    by (cases "process_conversation_turn looping_bot question (start ())")
  have llm: "\<forall>ms w. \<exists>reply w'. completions_create looping_bot ms w = (Completion reply, w')
                               \<and> valid_tool_call (limits looping_bot) reply"
    by (simp add: looping_bot_def valid_tool_call_def)
  have tool: "\<forall>nm args w. \<exists>res w'. call_tool looping_bot nm args w = (ToolReturns res, w')
                               \<and> \<not> isError res"
    by (simp add: looping_bot_def default_result_def)
  from process_conversation_turn_call_bound [OF run] llm tool
  obtain new where "trace s' = trace (start ()) @ new"
    "r = Inr exhausted_answer" "llm_calls new = 3" "tool_calls new = 3"
    by blast
  with run show ?thesis by (simp add: start_def)
qed

text \<open>
  Claim C4.  If the tool backend reports \<open>isError\<close> on every call and the first response
  of the model contains a valid tool call, \<open>process_conversation_turn\<close> returns the answer
  \<open>I encountered an error while querying the database: ...\<close> in its first iteration:
  the events of the turn are one completion request and one tool call, and the transcript
  is unchanged.
\<close>

theorem tool_error_ends_turn:
  assumes tool: "\<forall>nm args w. \<exists>res w'. call_tool self nm args w = (ToolReturns res, w') \<and> isError res"
    and resp: "get_llm_response self user_message s = (llm_response, s1)"
    and valid: "valid_tool_call (limits self) llm_response"
  shows "\<exists>m s' nm args.
           process_conversation_turn self user_message s = (Inr (tool_error_answer m), s')
           \<and> prefix ''MCP tool execution failed: Tool execution failed: '' m
           \<and> trace s' = trace s @ [LLMCall (llm_messages self user_message s), ToolCall nm args]
           \<and> llm_calls [LLMCall (llm_messages self user_message s), ToolCall nm args] = 1
           \<and> tool_calls [LLMCall (llm_messages self user_message s), ToolCall nm args] = 1
           \<and> conversation_history s' = conversation_history s"
proof -
  from valid obtain tool_call tool_name arguments where call:
    "extract_tool_call (limits self) llm_response = Inr (Some tool_call)"
    "subscript tool_call ''tool_name'' = Inr tool_name"
    "subscript tool_call ''arguments'' = Inr arguments"
    by (rule valid_tool_callE)
  from tool obtain res w' where
    "call_tool self tool_name arguments (backend s1) = (ToolReturns res, w')" "isError res"
    by blast
  from execute_mcp_tool_error_result [OF this] obtain s2 where exec:
    "execute_mcp_tool self tool_name arguments s1 =
       (Inl (MCPToolError (''MCP tool execution failed: Tool execution failed: '' @ content_str res)), s2)" ..
  define m where "m = ''MCP tool execution failed: Tool execution failed: '' @ content_str res"
  have "turn_loop self (Suc 2) user_message s = (Inr (tool_error_answer m), s2)"
    unfolding m_def by (rule turn_loop_tool_failure [OF resp call exec])
  then have turn: "process_conversation_turn self user_message s = (Inr (tool_error_answer m), s2)"
    by (simp add: process_conversation_turn_def max_iterations_def numeral_3_Suc)
  have pre: "prefix ''MCP tool execution failed: Tool execution failed: '' m"
    unfolding m_def by (rule prefixI) (rule refl)
  have tr: "trace s2 = trace s @ [LLMCall (llm_messages self user_message s), ToolCall tool_name arguments]"
    using get_llm_response_state(2) [OF resp] execute_mcp_tool_state(2) [OF exec] by simp
  have hist: "conversation_history s2 = conversation_history s"
    using get_llm_response_state(1) [OF resp] execute_mcp_tool_state(1) [OF exec] by simp
  have counts:
    "llm_calls [LLMCall (llm_messages self user_message s), ToolCall tool_name arguments] = 1"
    "tool_calls [LLMCall (llm_messages self user_message s), ToolCall tool_name arguments] = 1"
    by simp_all
  from turn pre tr counts hist show ?thesis by blast
qed

text \<open>The theorem on a session whose tool backend always reports an error.\<close>

theorem tool_error_ends_turn_witness:
  "\<exists>m s'. process_conversation_turn failing_tool_bot question (start ()) = (Inr (tool_error_answer m), s')
           \<and> llm_calls (trace s') = 1 \<and> tool_calls (trace s') = 1
           \<and> conversation_history s' = []"
proof -
  obtain llm_response s1 where
    resp: "get_llm_response failing_tool_bot question (start ()) = (llm_response, s1)"
    by (cases "get_llm_response failing_tool_bot question (start ())")
  then have "llm_response = list_databases_call"
    by (auto simp: get_llm_response_def failing_tool_bot_def Let_def)
  then have valid: "valid_tool_call (limits failing_tool_bot) llm_response"
    by (simp add: valid_tool_call_def failing_tool_bot_def)
  have tool: "\<forall>nm args w. \<exists>res w'. call_tool failing_tool_bot nm args w = (ToolReturns res, w')
                               \<and> isError res"
    by (simp add: failing_tool_bot_def error_result_def)
  from tool_error_ends_turn [OF tool resp valid]
  obtain m s' nm args where
    "process_conversation_turn failing_tool_bot question (start ()) = (Inr (tool_error_answer m), s')"
    "trace s' = trace (start ()) @ [LLMCall (llm_messages failing_tool_bot question (start ())), ToolCall nm args]"
    "conversation_history s' = conversation_history (start ())"
    by blast
  then show ?thesis by (auto simp: start_def)
qed

text \<open>
  Claim C10.  Take any iteration of the loop (any number of remaining iterations, any
  state \<open>s\<close> at its start; the transcript of \<open>s\<close> holds what earlier iterations of the turn
  appended).  If the response contains a tool call with both keys and \<open>execute_mcp_tool\<close>
  raises \<open>MCPToolError\<close>, the loop returns at once with the error answer; the only events
  of the iteration are the completion request and the tool call, and the transcript is
  what it was at the start of the iteration.
\<close>

theorem failed_tool_call_leaves_history:
  assumes resp: "get_llm_response self current_message s = (llm_response, s1)"
    and call: "extract_tool_call (limits self) llm_response = Inr (Some tool_call)"
      "subscript tool_call ''tool_name'' = Inr tool_name"
      "subscript tool_call ''arguments'' = Inr arguments"
    and exec: "execute_mcp_tool self tool_name arguments s1 = (Inl (MCPToolError e), s2)"
  shows "turn_loop self (Suc n) current_message s = (Inr (tool_error_answer e), s2)
         \<and> conversation_history s2 = conversation_history s
         \<and> trace s2 = trace s @ [LLMCall (llm_messages self current_message s),
                                  ToolCall tool_name arguments]"
  using turn_loop_tool_failure [OF resp call exec]
    get_llm_response_state [OF resp] execute_mcp_tool_state [OF exec]
  by simp

text \<open>
  The theorem at the second iteration of a turn whose first tool call succeeds and whose
  second fails: the two entries of the first iteration remain, nothing is added for the
  second.
\<close>

theorem failed_tool_call_leaves_history_witness:
  "\<exists>s2. process_conversation_turn flaky_bot question (start 0)
           = (Inr (tool_error_answer
                     ''MCP tool execution failed: Tool execution failed: [Unknown table]''), s2)
         \<and> conversation_history s2 =
             [\<lparr>role = Assistant, content = list_databases_call\<rparr>,
              \<lparr>role = User, content = ''Tool result: default''\<rparr>]"
proof -
  have first: "process_conversation_turn flaky_bot question (start 0)
                 = turn_loop flaky_bot (Suc (Suc 0)) follow_up_message after_first_round"
    by (simp add: run_defs flaky_bot_def after_first_round_def numeral_3_Suc)
  obtain llm_response s1 where
    resp: "get_llm_response flaky_bot follow_up_message after_first_round = (llm_response, s1)"
    by (cases "get_llm_response flaky_bot follow_up_message after_first_round")
  then have r: "llm_response = list_databases_call" and w: "backend s1 = Suc 0"
    by (auto simp: get_llm_response_def flaky_bot_def after_first_round_def Let_def)
  obtain x s2 where
    exec: "execute_mcp_tool flaky_bot (JString (ustr ''list_databases'')) (JObject []) s1 = (x, s2)"
    by (cases "execute_mcp_tool flaky_bot (JString (ustr ''list_databases'')) (JObject []) s1")
  with w have x: "x = Inl (MCPToolError
      ''MCP tool execution failed: Tool execution failed: [Unknown table]'')"
    by (auto simp: execute_mcp_tool_def flaky_bot_def error_result_def Let_def)
  have call: "extract_tool_call (limits flaky_bot) list_databases_call = Inr (Some list_databases_json)"
    by (simp add: flaky_bot_def)
  from failed_tool_call_leaves_history
         [OF resp [unfolded r] call subscript_list_databases_json
             exec [unfolded x], of "Suc 0"]
  have "turn_loop flaky_bot (Suc (Suc 0)) follow_up_message after_first_round
          = (Inr (tool_error_answer
                    ''MCP tool execution failed: Tool execution failed: [Unknown table]''), s2)"
    and "conversation_history s2 = conversation_history after_first_round"
    by simp_all
  with first show ?thesis by (simp add: after_first_round_def)
qed

text \<open>
  Claim C1 does not hold of the code.  \<^verbatim>\<open>tool_call["tool_name"]\<close> and
  \<^verbatim>\<open>tool_call["arguments"]\<close> are evaluated inside the \<open>try\<close> block, but only
  \<open>MCPToolError\<close> is caught: when the model answers \<open>TOOL_CALL: {}\<close>, or names a tool
  without arguments, \<open>process_conversation_turn\<close> raises \<open>KeyError\<close> to its caller.
\<close>

theorem missing_key_raises:
  "fst (process_conversation_turn keyless_bot question (start ())) = Inl (KeyError ''tool_name'')
   \<and> fst (process_conversation_turn no_arguments_bot question (start ())) = Inl (KeyError ''arguments'')"
  by (simp add: run_defs keyless_bot_def no_arguments_bot_def numeral_3_Suc
      extract_empty_object extract_no_arguments ustr_def)


section \<open>The window of 20 entries\<close>

lemma most_recent_append: "most_recent k (most_recent k xs @ ys) = most_recent k (xs @ ys)"
proof (cases "length xs \<le> k")
  case True
  then show ?thesis by (simp add: most_recent_def)
next
  case False
  then have "length xs + length ys - (length xs - k + k) + (length xs - k)
               = length xs + length ys - k"
    by simp
  with False show ?thesis by (simp add: most_recent_def)
qed

lemma length_most_recent: "length (most_recent k xs) \<le> k"
  by (simp add: most_recent_def)

lemma truncate_most_recent:
  "(if length h > 20 then drop (length h - 20) h else h) = most_recent 20 h"
  by (simp add: most_recent_def)

text \<open>What a completed turn of the chat loop does to the state.\<close>

lemma chat_turn_result:
  assumes "chat_turn self user_input s = Inr s'"
  obtains response s1 new where
    "process_conversation_turn self user_input s = (Inr response, s1)"
    "trace s1 = trace s @ new"
    "conversation_history s1 = conversation_history s @ appended new"
    "tool_exchange (limits self) (appended new)"
    "length (appended new) \<le> 6"
    "trace s' = trace s @ new @ [HistoryExtend [\<lparr>role = User, content = user_input\<rparr>,
                                               \<lparr>role = Assistant, content = response\<rparr>]]"
    "conversation_history s' =
       most_recent 20 (conversation_history s @ appended new
                         @ [\<lparr>role = User, content = user_input\<rparr>,
                            \<lparr>role = Assistant, content = response\<rparr>])"
proof -
  obtain r s1 where turn: "process_conversation_turn self user_input s = (r, s1)"
    by (cases "process_conversation_turn self user_input s")
  with assms obtain response where r: "r = Inr response"
    by (cases r) (simp_all add: chat_turn_def)
  from turn have "turn_loop self 3 user_input s = (r, s1)"
    by (simp add: process_conversation_turn_def max_iterations_def)
  from turn_loop_trace [OF this] obtain new where new:
    "trace s1 = trace s @ new" "tool_rounds new \<le> 3"
    "conversation_history s1 = conversation_history s @ appended new"
    "tool_exchange (limits self) (appended new)" "length (appended new) = 2 * tool_rounds new"
    by blast
  let ?entries = "[\<lparr>role = User, content = user_input\<rparr>, \<lparr>role = Assistant, content = response\<rparr>]"
  let ?s2 = "history_extend ?entries s1"
  from assms turn r have s': "s' = (if length (conversation_history ?s2) > 20
      then ?s2\<lparr>conversation_history :=
                 drop (length (conversation_history ?s2) - 20) (conversation_history ?s2)\<rparr>
      else ?s2)"
    by (simp add: chat_turn_def Let_def split: if_splits)
  have "trace s' = trace s @ new @ [HistoryExtend ?entries]"
    using new(1) by (simp add: s')
  moreover have "conversation_history s' = most_recent 20 (conversation_history ?s2)"
    unfolding truncate_most_recent [symmetric] by (simp add: s')
  then have "conversation_history s' =
      most_recent 20 (conversation_history s @ appended new @ ?entries)"
    using new(3) by simp
  moreover from new(2,5) have "length (appended new) \<le> 6"
    by simp
  ultimately show thesis
    using that [OF turn [unfolded r] new(1) new(3) new(4)] by blast
qed

lemma chat_turn_window:
  assumes "chat_turn self user_input s = Inr s'"
    and "conversation_history s = most_recent 20 (appended (trace s))"
  shows "conversation_history s' = most_recent 20 (appended (trace s'))"
proof -
  from assms(1) obtain response new where
    "trace s' = trace s @ new @ [HistoryExtend [\<lparr>role = User, content = user_input\<rparr>,
                                               \<lparr>role = Assistant, content = response\<rparr>]]"
    "conversation_history s' =
       most_recent 20 (conversation_history s @ appended new
                         @ [\<lparr>role = User, content = user_input\<rparr>,
                            \<lparr>role = Assistant, content = response\<rparr>])"
    by (rule chat_turn_result)
  with assms(2) show ?thesis
    by (simp add: most_recent_append)
qed

lemma chat_loop_body_window:
  "chat_loop_body self lines s = Inr s' \<Longrightarrow>
   conversation_history s = most_recent 20 (appended (trace s)) \<Longrightarrow>
   conversation_history s' = most_recent 20 (appended (trace s'))"
proof (induction lines arbitrary: s)
  case Nil
  then show ?case by simp
next
  case (Cons line lines)
  let ?user_input = "py_strip line"
  show ?case
  proof (cases "py_lower ?user_input \<in> set [''quit'', ''exit'', ''bye'']")
    case True
    with Cons.prems show ?thesis by (simp add: Let_def)
  next
    case no_quit: False
    show ?thesis
    proof (cases "?user_input = []")
      case True
      with Cons.prems no_quit have "chat_loop_body self lines s = Inr s'"
        by (simp add: Let_def)
      from Cons.IH [OF this Cons.prems(2)] show ?thesis .
    next
      case False
      with Cons.prems no_quit obtain s1 where
        turn: "chat_turn self ?user_input s = Inr s1" and
        rest: "chat_loop_body self lines s1 = Inr s'"
        by (cases "chat_turn self ?user_input s") (simp_all add: Let_def)
      from chat_turn_window [OF turn Cons.prems(2)] Cons.IH [OF rest]
      show ?thesis by simp
    qed
  qed
qed


section \<open>Claims about the transcript\<close>

text \<open>
  Claim C5.  A session starts with an empty transcript and no entry appended.  Every
  completed turn of the chat loop keeps this property: the transcript has at most 20
  entries, and they are the most recent of all entries ever appended, in the order in
  which they were appended.  So it holds after every completed turn, and in particular
  when the loop is left, after any number of turns.
\<close>

theorem history_window:
  "(conversation_history s = most_recent 20 (appended (trace s))
      \<and> chat_turn self user_input s = Inr s'
      \<longrightarrow> length (conversation_history s') \<le> 20
          \<and> conversation_history s' = most_recent 20 (appended (trace s')))
   \<and> (chat_loop self lines w = Inr s''
      \<longrightarrow> length (conversation_history s'') \<le> 20
          \<and> conversation_history s'' = most_recent 20 (appended (trace s'')))"
proof (intro conjI impI)
  assume turn: "conversation_history s = most_recent 20 (appended (trace s))
      \<and> chat_turn self user_input s = Inr s'"
  then show kept: "conversation_history s' = most_recent 20 (appended (trace s'))"
    using chat_turn_window [of self user_input s s'] by simp
  show "length (conversation_history s') \<le> 20"
    unfolding kept by (rule length_most_recent)
next
  assume run: "chat_loop self lines w = Inr s''"
  let ?s0 = "\<lparr>conversation_history = [], backend = w, trace = []\<rparr>"
  from run have "chat_loop_body self lines ?s0 = Inr s''"
    by (simp add: chat_loop_def)
  moreover have "conversation_history ?s0 = most_recent 20 (appended (trace ?s0))"
    by (simp add: most_recent_def)
  ultimately show kept: "conversation_history s'' = most_recent 20 (appended (trace s''))"
    by (rule chat_loop_body_window)
  show "length (conversation_history s'') \<le> 20"
    unfolding kept by (rule length_most_recent)
qed

text \<open>
  The theorem on one turn with three tool rounds from the start of a session (8 entries),
  and on a session of three such turns: 24 entries are appended and the last 20 are kept.
  An empty line is skipped, and the loop ends at \<open>QUIT\<close>.
\<close>

theorem history_window_witness:
  "\<exists>s' s''.
      chat_turn looping_bot question (start ()) = Inr s'
      \<and> length (conversation_history s') = 8
      \<and> conversation_history s' = most_recent 20 (appended (trace s'))
      \<and> chat_loop looping_bot
          [''first question'', '''', ''  second question  '', ''third question'', ''QUIT'', ''never read''] ()
          = Inr s''
      \<and> length (appended (trace s'')) = 24
      \<and> length (conversation_history s'') = 20
      \<and> conversation_history s'' = most_recent 20 (appended (trace s''))"
proof -
  have "\<exists>s'. chat_turn looping_bot question (start ()) = Inr s'
              \<and> length (conversation_history s') = 8"
    by (simp add: run_defs looping_bot_def numeral_3_Suc)
  then obtain s' where turn: "chat_turn looping_bot question (start ()) = Inr s'"
    and eight: "length (conversation_history s') = 8"
    by blast
  have initial: "conversation_history (start ()) = most_recent 20 (appended (trace (start ())))"
    by (simp add: start_def most_recent_def)
  have "\<exists>s. chat_loop looping_bot
          [''first question'', '''', ''  second question  '', ''third question'', ''QUIT'', ''never read''] ()
          = Inr s \<and> length (appended (trace s)) = 24"
    by (simp add: run_defs looping_bot_def numeral_3_Suc py_lower_def py_lower_char_def
        py_strip_def py_isspace_def)
  then obtain s'' where run: "chat_loop looping_bot
          [''first question'', '''', ''  second question  '', ''third question'', ''QUIT'', ''never read''] ()
          = Inr s''" and total: "length (appended (trace s'')) = 24"
    by blast
  from history_window [THEN conjunct1, rule_format, OF conjI, OF initial turn]
  have "conversation_history s' = most_recent 20 (appended (trace s'))"
    by simp
  moreover from history_window [THEN conjunct2, rule_format, OF run] total
  have "length (conversation_history s'') = 20"
    and "conversation_history s'' = most_recent 20 (appended (trace s''))"
    by (simp_all add: most_recent_def)
  ultimately show ?thesis
    using turn eight run total by blast
qed

text \<open>
  Claim C9, as stated, fails.  \<open>process_conversation_turn\<close> appends the tool call and
  the tool result while the turn runs; \<open>chat_loop\<close> appends the user's input only after the
  turn has returned.  After a turn with one tool call the user's input is the third entry,
  behind the tool call and its result.
\<close>

theorem user_input_before_tool_exchange_counterexample:
  "map_sum id conversation_history (chat_turn one_query_bot question (start 0))
     = Inr [\<lparr>role = Assistant, content = list_databases_call\<rparr>,
            \<lparr>role = User, content = ''Tool result: default''\<rparr>,
            \<lparr>role = User, content = question\<rparr>,
            \<lparr>role = Assistant, content = ''There is one database: default.''\<rparr>]"
  by (simp add: run_defs one_query_bot_def numeral_3_Suc)

text \<open>
  Claim C9, amended.  After every completed turn of the chat loop the transcript ends with
  the tool exchanges of the turn (each an assistant tool-call message followed by its
  \<open>Tool result: ...\<close> message, in the order of the calls), then the user's input, then
  the answer: the user's input is stored at a later index than the tool-call and
  tool-result messages generated in response to it.  Before them stands what the cut to
  20 entries keeps of the earlier transcript.
\<close>

theorem user_input_follows_tool_exchange:
  assumes "chat_turn self user_input s = Inr s'"
  shows "\<exists>kept exchange response s1.
           process_conversation_turn self user_input s = (Inr response, s1)
           \<and> conversation_history s1 = conversation_history s @ exchange
           \<and> tool_exchange (limits self) exchange
           \<and> suffix kept (conversation_history s)
           \<and> conversation_history s' =
                kept @ exchange @ [\<lparr>role = User, content = user_input\<rparr>,
                                   \<lparr>role = Assistant, content = response\<rparr>]"
proof -
  from assms obtain response s1 new where turn:
    "process_conversation_turn self user_input s = (Inr response, s1)"
    "conversation_history s1 = conversation_history s @ appended new"
    "tool_exchange (limits self) (appended new)"
    and len: "length (appended new) \<le> 6"
    and hist: "conversation_history s' =
       most_recent 20 (conversation_history s @ appended new
                         @ [\<lparr>role = User, content = user_input\<rparr>,
                            \<lparr>role = Assistant, content = response\<rparr>])"
    by (rule chat_turn_result)
  let ?k = "length (conversation_history s) + length (appended new) + 2 - 20"
  from len have "?k \<le> length (conversation_history s)"
    by simp
  with hist have "conversation_history s' =
      drop ?k (conversation_history s) @ appended new
        @ [\<lparr>role = User, content = user_input\<rparr>, \<lparr>role = Assistant, content = response\<rparr>]"
    by (simp add: most_recent_def)
  moreover have "suffix (drop ?k (conversation_history s)) (conversation_history s)"
    by (rule suffix_drop)
  ultimately show ?thesis using turn by blast
qed

text \<open>The theorem on a turn with one successful tool call.\<close>

theorem user_input_follows_tool_exchange_witness:
  "\<exists>s'. chat_turn one_query_bot question (start 0) = Inr s'
         \<and> conversation_history s' =
             [\<lparr>role = Assistant, content = list_databases_call\<rparr>,
              \<lparr>role = User, content = ''Tool result: default''\<rparr>]
             @ [\<lparr>role = User, content = question\<rparr>,
                \<lparr>role = Assistant, content = ''There is one database: default.''\<rparr>]"
proof -
  have "\<exists>s'. chat_turn one_query_bot question (start 0) = Inr s'"
    by (simp add: run_defs one_query_bot_def numeral_3_Suc)
  then obtain s' where turn: "chat_turn one_query_bot question (start 0) = Inr s'" ..
  have "fst (process_conversation_turn one_query_bot question (start 0))
          = Inr ''There is one database: default.''"
    and "conversation_history (snd (process_conversation_turn one_query_bot question (start 0)))
          = [\<lparr>role = Assistant, content = list_databases_call\<rparr>,
             \<lparr>role = User, content = ''Tool result: default''\<rparr>]"
    by (simp_all add: run_defs one_query_bot_def numeral_3_Suc)
  with user_input_follows_tool_exchange [OF turn]
  have "conversation_history s' =
          [\<lparr>role = Assistant, content = list_databases_call\<rparr>,
           \<lparr>role = User, content = ''Tool result: default''\<rparr>]
          @ [\<lparr>role = User, content = question\<rparr>,
             \<lparr>role = Assistant, content = ''There is one database: default.''\<rparr>]"
    by (auto simp: start_def)
  with turn show ?thesis by blast
qed


section \<open>Texts joined by line feeds\<close>

lemma prefix_before_newline:
  assumes "CHR 0x0A \<notin> set sub"
  shows "prefix sub (xs @ CHR 0x0A # ys) \<longleftrightarrow> prefix sub xs"
proof
  assume "prefix sub (xs @ CHR 0x0A # ys)"
  then consider "prefix sub xs" | us where "sub = xs @ us" "prefix us (CHR 0x0A # ys)"
    by (auto simp: prefix_append)
  then show "prefix sub xs"
  proof cases
    case 1
    then show ?thesis .
  next
    case 2
    with assms have "us = []"
      by (cases us) auto
    with 2 show ?thesis by simp
  qed
next
  assume "prefix sub xs"
  then show "prefix sub (xs @ CHR 0x0A # ys)"
    by (simp add: prefix_append)
qed

lemma str_contains_across_newline:
  assumes "CHR 0x0A \<notin> set sub" and "sub \<noteq> []"
  shows "str_contains sub (a @ CHR 0x0A # b) \<longleftrightarrow> str_contains sub a \<or> str_contains sub b"
proof (induction a)
  case Nil
  from assms have "\<not> prefix sub (CHR 0x0A # b)"
    by (cases sub) auto
  with assms(2) show ?case by simp
next
  case (Cons c a)
  from prefix_before_newline [OF assms(1), of "c # a" b]
  have "prefix sub (c # a @ CHR 0x0A # b) \<longleftrightarrow> prefix sub (c # a)"
    by simp
  with Cons show ?case by auto
qed

lemma str_contains_join:
  assumes "CHR 0x0A \<notin> set sub" and "sub \<noteq> []"
  shows "str_contains sub (str_join [CHR 0x0A] ls) \<longleftrightarrow> (\<exists>l\<in>set ls. str_contains sub l)"
proof (induction ls rule: induct_list012)
  case 1
  from assms(2) show ?case by simp
next
  case (2 p)
  show ?case by simp
next
  case (3 p q ps)
  from str_contains_across_newline [OF assms, of p "str_join [CHR 0x0A] (q # ps)"] 3
  show ?case by simp
qed

lemma py_lower_join:
  "py_lower (str_join sep ls) = str_join (py_lower sep) (map py_lower ls)"
  by (induction sep ls rule: str_join.induct) (simp_all add: py_lower_def)

lemma str_join_front:
  "ms \<noteq> [] \<Longrightarrow> \<exists>post. str_join sep (ms @ rest) = str_join sep ms @ post"
proof (induction ms rule: induct_list012)
  case 1
  then show ?case by simp
next
  case (2 p)
  show ?case by (cases rest) simp_all
next
  case (3 p q ps)
  then show ?case by auto
qed

lemma str_join_window:
  assumes "take (length ms) (drop n ls) = ms" and "ms \<noteq> []"
  shows "\<exists>pre post. str_join sep ls = pre @ str_join sep ms @ post"
  using assms(1)
proof (induction ls arbitrary: n rule: induct_list012)
  case 1
  with assms(2) show ?case by simp
next
  case (2 p)
  with assms(2) have "ms = [p]"
    by (cases n) (auto simp: take_Cons' split: if_splits)
  then have "str_join sep [p] = [] @ str_join sep ms @ []"
    by simp
  then show ?case by blast
next
  case (3 p q ps)
  show ?case
  proof (cases n)
    case 0
    with 3(3) have "take (length ms) (p # q # ps) = ms" by simp
    then have "p # q # ps = ms @ drop (length ms) (p # q # ps)"
      by (metis append_take_drop_id)
    moreover from str_join_front [OF assms(2)] obtain post where
      "str_join sep (ms @ drop (length ms) (p # q # ps)) = str_join sep ms @ post" ..
    ultimately have "str_join sep (p # q # ps) = [] @ str_join sep ms @ post"
      by simp
    then show ?thesis by blast
  next
    case (Suc k)
    with 3(3) have "take (length ms) (drop k (q # ps)) = ms" by simp
    from 3(2) [OF this] obtain pre post where
      "str_join sep (q # ps) = pre @ str_join sep ms @ post" by blast
    then have "str_join sep (p # q # ps) = (p @ sep @ pre) @ str_join sep ms @ post"
      by simp
    then show ?thesis by blast
  qed
qed

lemma py_lower_newline: "py_lower [CHR 0x0A] = [CHR 0x0A]"
  by (simp add: py_lower_def py_lower_char_def)


section \<open>Claims about the prompt builder\<close>

text \<open>
  Claim C6, as stated, fails in its second half.  The prompt for an empty tool list does
  not say \<open>no tools available\<close>, in whatever letter case.
\<close>

theorem no_tools_statement_counterexample:
  "\<not> str_contains ''no tools available'' (py_lower (create_system_prompt []))"
proof -
  have sub: "CHR 0x0A \<notin> set ''no tools available''" "''no tools available'' \<noteq> []"
    by simp_all
  show ?thesis
    unfolding create_system_prompt_def get_schema_context_def tools_description_def
      py_lower_join py_lower_newline list.map str_join.simps(1)
      str_contains_join [OF sub]
    by (simp add: py_lower_def py_lower_char_def str_contains_join [OF sub] del: str_join.simps)
qed

text \<open>
  Claim C6, amended.  For an empty tool list the prompt builder returns a prompt (it is a
  total function); the block of tool lines is the empty text, so that in the prompt the
  heading \<open>AVAILABLE MCP TOOLS:\<close> is followed by an empty line, a second empty line and
  the instructions.
\<close>

theorem empty_tool_list_prompt:
  "tools_description [] = []
   \<and> (\<exists>pre post. create_system_prompt [] =
          pre @ ''AVAILABLE MCP TOOLS:'' @ [CHR 0x0A, CHR 0x0A, CHR 0x0A] @ ''        INSTRUCTIONS:'' @ post)"
proof
  show empty: "tools_description [] = []"
    by (simp add: tools_description_def)
  have "\<exists>pre post. create_system_prompt [] =
          pre @ str_join [CHR 0x0A] [''AVAILABLE MCP TOOLS:'', [], [], ''        INSTRUCTIONS:''] @ post"
    unfolding create_system_prompt_def empty
    by (rule str_join_window [where n = 4]) simp_all
  then show "\<exists>pre post. create_system_prompt [] =
          pre @ ''AVAILABLE MCP TOOLS:'' @ [CHR 0x0A, CHR 0x0A, CHR 0x0A] @ ''        INSTRUCTIONS:'' @ post"
    by simp
qed

end
